theory Spec2Isabelle
  imports Complex_Main "HOL-Library.Multiset"
begin

section \<open>Python values used by \<^verbatim>\<open>sleeper_stats.py\<close>\<close>

text \<open>
  An exception of class \<^verbatim>\<open>Exception\<close> is represented by its message.  A Python
  \<^verbatim>\<open>dict\<close> is an association list in insertion order with distinct keys:
  assigning to an existing key replaces the value where the key stands, assigning to a
  new key appends it.
\<close>

type_synonym exception = string

fun dict_set :: "('k \<times> 'v) list \<Rightarrow> 'k \<Rightarrow> 'v \<Rightarrow> ('k \<times> 'v) list" where
  "dict_set [] k v = [(k, v)]"
| "dict_set ((k', v') # d) k v =
     (if k' = k then (k, v) # d else (k', v') # dict_set d k v)"

definition dict_get :: "('k \<times> 'v) list \<Rightarrow> 'k \<Rightarrow> 'v option" where
  "dict_get d k = map_of d k"

text \<open>\<^verbatim>\<open>d.update(e)\<close>: every item of \<open>e\<close> is assigned into \<open>d\<close>, in the order of \<open>e\<close>.\<close>

definition dict_update :: "('k \<times> 'v) list \<Rightarrow> ('k \<times> 'v) list \<Rightarrow> ('k \<times> 'v) list" where
  "dict_update d e = fold (\<lambda>(k, v) acc. dict_set acc k v) e d"

text \<open>\<^verbatim>\<open>str(n)\<close> for an integer, as the f-strings of the program format it.\<close>

definition digit_char :: "nat \<Rightarrow> char" where
  "digit_char d = char_of (48 + d)"

fun str_nat :: "nat \<Rightarrow> string" where
  "str_nat n = (if n < 10 then [digit_char n] else str_nat (n div 10) @ [digit_char (n mod 10)])"

declare str_nat.simps [simp del]

definition str_int :: "int \<Rightarrow> string" where
  "str_int i = (if i < 0 then CHR ''-'' # str_nat (nat (- i)) else str_nat (nat i))"

section \<open>League data client\<close>

text \<open>
  \<^verbatim>\<open>requests.get(url)\<close> either raises (a transport-level exception) or returns a
  response carrying a status code; \<^verbatim>\<open>response.json()\<close> either raises (the body is
  not JSON) or returns the parsed body, here the list of the week's matchup entries.
  The remote API is the function from the week number in the URL to that outcome:
  the two fetch loops request every week at most once.
\<close>

datatype 'a response = Response (status_code: int) (json: "exception + 'a")

type_synonym 'm requests_get = "nat \<Rightarrow> exception + ('m list) response"

text \<open>
  The state of a fetch loop: the dictionary filled so far, the weeks requested so far
  (in the order of the requests) and the lines printed.
\<close>

record 'm fetching =
  by_week :: "(nat \<times> 'm list) list"
  requested :: "nat list"
  console :: "string list"

text \<open>
  The body of \<^verbatim>\<open>for week in range(1, 18)\<close> in \<^verbatim>\<open>fetch_matchups\<close>.  The
  \<^verbatim>\<open>try\<close> block covers the request, the status test, \<^verbatim>\<open>response.json()\<close> and
  the progress line; its handler prints and leaves the loop with \<^verbatim>\<open>break\<close>.
\<close>

fun fetch_matchups_loop :: "'m requests_get \<Rightarrow> nat list \<Rightarrow> 'm fetching \<Rightarrow> 'm fetching" where
  "fetch_matchups_loop get [] st = st"
| "fetch_matchups_loop get (week # weeks) st =
     (case get week of
        Inl e \<Rightarrow>
          st\<lparr>requested := requested st @ [week],
             console := console st @ [''  Week '' @ str_nat week @ '': Error or no data - '' @ e]\<rparr>
      | Inr response \<Rightarrow>
          if status_code response = 200 then
            (case json response of
               Inl e \<Rightarrow>
                 st\<lparr>requested := requested st @ [week],
                    console := console st @ [''  Week '' @ str_nat week @ '': Error or no data - '' @ e]\<rparr>
             | Inr body \<Rightarrow>
                 fetch_matchups_loop get weeks
                   (st\<lparr>by_week := dict_set (by_week st) week body,
                       requested := requested st @ [week],
                       console := console st @
                         [''  Week '' @ str_nat week @ '': '' @ str_nat (length body) @ '' matchups'']\<rparr>))
          else fetch_matchups_loop get weeks (st\<lparr>requested := requested st @ [week]\<rparr>))"

text \<open>\<^verbatim>\<open>fetch_matchups\<close>: the loop over \<^verbatim>\<open>range(1, 18)\<close> from an empty dictionary;
  its \<open>by_week\<close> becomes \<^verbatim>\<open>self.matchups\<close>.\<close>

definition fetch_matchups :: "'m requests_get \<Rightarrow> 'm fetching" where
  "fetch_matchups get =
     fetch_matchups_loop get [1..<18]
       \<lparr>by_week = [], requested = [], console = [''Fetching matchups for all weeks...'']\<rparr>"

text \<open>
  The body of \<^verbatim>\<open>for week in range(1, 5)\<close> in \<^verbatim>\<open>fetch_playoff_matchups\<close>: the
  request and the key are \<^verbatim>\<open>week + 17\<close>, and the handler leaves the loop silently.
\<close>

fun fetch_playoff_loop :: "'m requests_get \<Rightarrow> nat list \<Rightarrow> 'm fetching \<Rightarrow> 'm fetching" where
  "fetch_playoff_loop get [] st = st"
| "fetch_playoff_loop get (week # weeks) st =
     (case get (week + 17) of
        Inl e \<Rightarrow> st\<lparr>requested := requested st @ [week + 17]\<rparr>
      | Inr response \<Rightarrow>
          if status_code response = 200 then
            (case json response of
               Inl e \<Rightarrow> st\<lparr>requested := requested st @ [week + 17]\<rparr>
             | Inr body \<Rightarrow>
                 fetch_playoff_loop get weeks
                   (st\<lparr>by_week := dict_set (by_week st) (week + 17) body,
                       requested := requested st @ [week + 17],
                       console := console st @
                         [''  Playoff week '' @ str_nat week @ '': '' @ str_nat (length body) @ '' matchups'']\<rparr>))
          else fetch_playoff_loop get weeks (st\<lparr>requested := requested st @ [week + 17]\<rparr>))"

text \<open>\<^verbatim>\<open>playoff_weeks\<close>, the local dictionary of \<^verbatim>\<open>fetch_playoff_matchups\<close>.\<close>

definition playoff_weeks :: "'m requests_get \<Rightarrow> 'm fetching" where
  "playoff_weeks get =
     fetch_playoff_loop get [1..<5]
       \<lparr>by_week = [], requested = [], console = [''Fetching playoff matchups...'']\<rparr>"

text \<open>\<^verbatim>\<open>fetch_playoff_matchups\<close> on \<^verbatim>\<open>self.matchups\<close>: the result's \<open>by_week\<close> is
  \<^verbatim>\<open>self.matchups\<close> after \<^verbatim>\<open>self.matchups.update(playoff_weeks)\<close>.\<close>

definition fetch_playoff_matchups :: "'m requests_get \<Rightarrow> (nat \<times> 'm list) list \<Rightarrow> 'm fetching" where
  "fetch_playoff_matchups get matchups =
     (let st = playoff_weeks get in st\<lparr>by_week := dict_update matchups (by_week st)\<rparr>)"

text \<open>
  Two readings of one week's outcome, used to state what a loop did: the outcome ends
  the loop (an exception inside the \<^verbatim>\<open>try\<close> block), and the body the loop stores
  for it (status 200 with a parsed body).
\<close>

definition aborts :: "exception + ('m list) response \<Rightarrow> bool" where
  "aborts outcome =
     (case outcome of Inl e \<Rightarrow> True | Inr r \<Rightarrow> status_code r = 200 \<and> isl (json r))"

definition stored :: "exception + ('m list) response \<Rightarrow> 'm list option" where
  "stored outcome =
     (case outcome of
        Inl e \<Rightarrow> None
      | Inr r \<Rightarrow> if status_code r = 200 then (case json r of Inl e \<Rightarrow> None | Inr body \<Rightarrow> Some body) else None)"

section \<open>Data model\<close>

text \<open>
  The JSON objects the client returns, typed as the program reads them.  A key read
  with \<^verbatim>\<open>obj[key]\<close> is a field; a key read with \<^verbatim>\<open>obj.get(key, default)\<close> is
  optional, \<open>None\<close> standing for the absent key.  Dictionaries that are only looked up
  are maps.  Scores are JSON numbers: a finite double is a rational number, and the
  program and its queries only compare scores, so they are \<open>rat\<close>.  The one
  operation that computes with them is \<^verbatim>\<open>AVG\<close>, which belongs to the engine.

  These types hold the JSON in which a key that is present holds a value of its type.
  A key can also hold \<^verbatim>\<open>null\<close>, and \<^verbatim>\<open>obj.get(key, default)\<close> then returns
  \<^verbatim>\<open>None\<close>, not the default.  The section on JSON with null models the normalizer
  and the store again, with every key that is read with \<^verbatim>\<open>get\<close> absent, null or
  holding a value, and shows that on JSON without null, with at least one matchup
  entry, both models compute the same table.
\<close>

record user =
  metadata :: "(string \<rightharpoonup> string) option"

record roster =
  owner_id :: "string option"

record matchup_entry =
  raw_roster_id :: int
  raw_matchup_id :: int
  raw_points :: "rat option"
  raw_players :: "string list option"
  raw_players_points :: "(string \<rightharpoonup> rat) option"

text \<open>The dictionary appended to \<^verbatim>\<open>matchup_records\<close>, a row of \<^verbatim>\<open>matchups_raw\<close>.\<close>

record matchup_record =
  week :: nat
  roster_id :: int
  team_name :: string
  matchup_id :: int
  points :: rat
  top_player_id :: "string option"
  top_player_score :: rat
  players_json :: string

text \<open>A row of the table \<^verbatim>\<open>matchups\<close>: the columns of \<^verbatim>\<open>matchups_raw\<close>, then
  \<^verbatim>\<open>won\<close> and \<^verbatim>\<open>rank_in_matchup\<close>.\<close>

record matchups_row = matchup_record +
  won :: int
  rank_in_matchup :: nat

section \<open>Matchup normalizer (the loop of \<^verbatim>\<open>build_database\<close>)\<close>

text \<open>
  Team name: \<^verbatim>\<open>self.rosters.get(roster_id, {})\<close>, \<^verbatim>\<open>roster.get('owner_id')\<close>,
  \<^verbatim>\<open>self.users.get(owner_id, {})\<close> and
  \<^verbatim>\<open>user.get('metadata', {}).get('team_name', f'Team_{roster_id}')\<close>.  The default
  \<^verbatim>\<open>{}\<close> is the object without keys.  Here \<^verbatim>\<open>metadata\<close> and \<^verbatim>\<open>team_name\<close>
  are absent or hold a value; \<open>resolve_team_name_json\<close> below is the same lines with
  \<^verbatim>\<open>null\<close>.
\<close>

definition resolve_team_name :: "(string \<rightharpoonup> user) \<Rightarrow> (int \<rightharpoonup> roster) \<Rightarrow> int \<Rightarrow> string" where
  "resolve_team_name users rosters rid =
     (let roster = (case rosters rid of Some r \<Rightarrow> r | None \<Rightarrow> \<lparr>owner_id = None\<rparr>);
          owner = owner_id roster;
          user = (case owner of
                    None \<Rightarrow> \<lparr>metadata = None\<rparr>
                  | Some oid \<Rightarrow> (case users oid of Some u \<Rightarrow> u | None \<Rightarrow> \<lparr>metadata = None\<rparr>));
          md = (case metadata user of Some m \<Rightarrow> m | None \<Rightarrow> Map.empty)
      in case md ''team_name'' of Some name \<Rightarrow> name | None \<Rightarrow> ''Team_'' @ str_int rid)"

text \<open>\<^verbatim>\<open>matchup.get('players', [])\<close> and \<^verbatim>\<open>matchup.get('players_points', {})\<close>.\<close>

definition players_of :: "matchup_entry \<Rightarrow> string list" where
  "players_of matchup = (case raw_players matchup of Some ps \<Rightarrow> ps | None \<Rightarrow> [])"

definition players_points_of :: "matchup_entry \<Rightarrow> (string \<rightharpoonup> rat)" where
  "players_points_of matchup =
     (case raw_players_points matchup of Some pp \<Rightarrow> pp | None \<Rightarrow> Map.empty)"

text \<open>\<^verbatim>\<open>matchup.get('players_points', {}).get(player_id, 0)\<close>.\<close>

definition score_of :: "matchup_entry \<Rightarrow> string \<Rightarrow> rat" where
  "score_of matchup player_id =
     (case players_points_of matchup player_id of Some s \<Rightarrow> s | None \<Rightarrow> 0)"

text \<open>\<^verbatim>\<open>for player_id in players\<close>: the score is assigned into \<^verbatim>\<open>player_scores\<close>
  when \<^verbatim>\<open>score > 0\<close>.\<close>

fun player_scores_loop ::
  "matchup_entry \<Rightarrow> string list \<Rightarrow> (string \<times> rat) list \<Rightarrow> (string \<times> rat) list" where
  "player_scores_loop matchup [] player_scores = player_scores"
| "player_scores_loop matchup (player_id # players) player_scores =
     (let score = score_of matchup player_id
      in if score > 0
         then player_scores_loop matchup players (dict_set player_scores player_id score)
         else player_scores_loop matchup players player_scores)"

definition player_scores_of :: "matchup_entry \<Rightarrow> (string \<times> rat) list" where
  "player_scores_of matchup = player_scores_loop matchup (players_of matchup) []"

text \<open>\<^verbatim>\<open>max(player_scores, key=player_scores.get)\<close>: the keys are visited in insertion
  order and a later key replaces the best one only when its score is strictly greater.\<close>

fun max_by_score :: "(string \<times> rat) \<Rightarrow> (string \<times> rat) list \<Rightarrow> (string \<times> rat)" where
  "max_by_score best [] = best"
| "max_by_score best (item # items) =
     max_by_score (if snd item > snd best then item else best) items"

text \<open>\<^verbatim>\<open>if player_scores: ... else: top_player_id = None; top_player_score = 0\<close>.\<close>

definition top_scorer :: "(string \<times> rat) list \<Rightarrow> string option \<times> rat" where
  "top_scorer player_scores =
     (case player_scores of
        [] \<Rightarrow> (None, 0)
      | item # items \<Rightarrow> (Some (fst (max_by_score item items)), snd (max_by_score item items)))"

text \<open>
  One pass of the inner loop: the record built for one matchup entry of one week.
  \<^verbatim>\<open>json.dumps\<close> is the parameter \<open>dumps\<close>: the text it writes for a number is not
  modelled, only the mapping it is given.  Here \<^verbatim>\<open>points\<close> is absent or a number;
  \<open>normalize_json\<close> below is the same pass with \<^verbatim>\<open>null\<close>.
\<close>

definition normalize ::
  "((string \<times> rat) list \<Rightarrow> string) \<Rightarrow> (string \<rightharpoonup> user) \<Rightarrow> (int \<rightharpoonup> roster) \<Rightarrow> nat \<Rightarrow>
   matchup_entry \<Rightarrow> matchup_record" where
  "normalize dumps users rosters wk matchup =
     \<lparr>week = wk,
      roster_id = raw_roster_id matchup,
      team_name = resolve_team_name users rosters (raw_roster_id matchup),
      matchup_id = raw_matchup_id matchup,
      points = (case raw_points matchup of Some p \<Rightarrow> p | None \<Rightarrow> 0),
      top_player_id = fst (top_scorer (player_scores_of matchup)),
      top_player_score = snd (top_scorer (player_scores_of matchup)),
      players_json = dumps (player_scores_of matchup)\<rparr>"

text \<open>\<^verbatim>\<open>for week, matchups in self.matchups.items(): for matchup in matchups: ...\<close>\<close>

definition matchup_records ::
  "((string \<times> rat) list \<Rightarrow> string) \<Rightarrow> (string \<rightharpoonup> user) \<Rightarrow> (int \<rightharpoonup> roster) \<Rightarrow>
   (nat \<times> matchup_entry list) list \<Rightarrow> matchup_record list" where
  "matchup_records dumps users rosters matchups =
     concat (map (\<lambda>(wk, entries). map (normalize dumps users rosters wk) entries) matchups)"

section \<open>The query engine\<close>

text \<open>
  The SQL of the program is evaluated by an embedded engine.  SQL leaves two things to
  the engine that the program's results depend on.  First, the relative order of rows
  with equal sort keys, in \<^verbatim>\<open>ORDER BY\<close> and in the ordering of a window: the engine
  sorts the rows as they arrive, and \<open>scan_order\<close> is the arrival order it happens to
  use, a list of row positions chosen from the key column.  Second, \<^verbatim>\<open>AVG\<close> over
  doubles, which rounds: \<open>avg\<close> is whatever number the engine returns for a column.
\<close>

record engine =
  scan_order :: "rat list \<Rightarrow> nat list"
  avg :: "rat list \<Rightarrow> rat"

text \<open>What every engine guarantees of \<open>scan_order\<close>: each row arrives exactly once.\<close>

definition scans_every_row :: "engine \<Rightarrow> bool" where
  "scans_every_row eng \<longleftrightarrow> (\<forall>keys. mset (scan_order eng keys) = mset [0..<length keys])"

text \<open>An engine that keeps the stored order of the rows and averages exactly.\<close>

definition stable_engine :: engine where
  "stable_engine = \<lparr>scan_order = (\<lambda>keys. [0..<length keys]),
                    avg = (\<lambda>xs. sum_list xs / of_nat (length xs))\<rparr>"

text \<open>An engine that reads the rows backwards.\<close>

definition reversing_engine :: engine where
  "reversing_engine = \<lparr>scan_order = (\<lambda>keys. rev [0..<length keys]),
                       avg = (\<lambda>xs. sum_list xs / of_nat (length xs))\<rparr>"









text \<open>\<^verbatim>\<open>ORDER BY key\<close> (ascending): the arriving rows, sorted by the key; rows with
  equal keys keep their arrival order.  \<^verbatim>\<open>ORDER BY c DESC\<close> is the key \<open>- c\<close>.\<close>

definition order_by :: "engine \<Rightarrow> ('a \<Rightarrow> rat) \<Rightarrow> 'a list \<Rightarrow> 'a list" where
  "order_by eng key rows =
     sort_key key
       (map (\<lambda>i. rows ! i) (filter (\<lambda>i. i < length rows) (scan_order eng (map key rows))))"

text \<open>\<^verbatim>\<open>GROUP BY\<close> and \<^verbatim>\<open>PARTITION BY\<close>: one group for every value of the grouping
  columns, holding the rows with that value.\<close>

definition group_by :: "('a \<Rightarrow> 'k) \<Rightarrow> 'a list \<Rightarrow> ('k \<times> 'a list) list" where
  "group_by f rows = map (\<lambda>k. (k, filter (\<lambda>r. f r = k) rows)) (remdups (map f rows))"

text \<open>\<^verbatim>\<open>ROW_NUMBER()\<close> numbers the rows of an ordered partition from 1.\<close>

definition number_rows :: "'a list \<Rightarrow> ('a \<times> nat) list" where
  "number_rows rows = zip rows [1..<Suc (length rows)]"

text \<open>\<^verbatim>\<open>ROW_NUMBER() OVER (PARTITION BY part ORDER BY key)\<close>: each row with its number.\<close>

definition row_number_over ::
  "engine \<Rightarrow> ('a \<Rightarrow> 'k) \<Rightarrow> ('a \<Rightarrow> rat) \<Rightarrow> 'a list \<Rightarrow> ('a \<times> nat) list" where
  "row_number_over eng part key rows =
     concat (map (\<lambda>(k, g). number_rows (order_by eng key g)) (group_by part rows))"

text \<open>\<^verbatim>\<open>STRING_AGG(s, sep)\<close>.\<close>

fun string_agg :: "string \<Rightarrow> string list \<Rightarrow> string" where
  "string_agg sep [] = []"
| "string_agg sep [s] = s"
| "string_agg sep (s # t # ss) = s @ sep @ string_agg sep (t # ss)"

section \<open>Analytical store (the SQL of \<^verbatim>\<open>build_database\<close>)\<close>

text \<open>
  \<^verbatim>\<open>CREATE TABLE matchups AS WITH ranked_matchups AS (SELECT ..., ROW_NUMBER() OVER
  (PARTITION BY week, matchup_id ORDER BY points DESC) as rank_in_matchup FROM
  matchups_raw) SELECT ..., CASE WHEN rank_in_matchup = 1 THEN 1 ELSE 0 END as won,
  rank_in_matchup FROM ranked_matchups\<close>.
\<close>

definition ranked_matchups :: "engine \<Rightarrow> matchup_record list \<Rightarrow> (matchup_record \<times> nat) list" where
  "ranked_matchups eng matchups_raw =
     row_number_over eng (\<lambda>r. (week r, matchup_id r)) (\<lambda>r. - points r) matchups_raw"

definition select_won :: "matchup_record \<times> nat \<Rightarrow> matchups_row" where
  "select_won ranked =
     (case ranked of (r, rank) \<Rightarrow>
        \<lparr>week = week r, roster_id = roster_id r, team_name = team_name r,
         matchup_id = matchup_id r, points = points r,
         top_player_id = top_player_id r, top_player_score = top_player_score r,
         players_json = players_json r,
         won = (if rank = 1 then 1 else 0), rank_in_matchup = rank\<rparr>)"

definition create_matchups :: "engine \<Rightarrow> matchup_record list \<Rightarrow> matchups_row list" where
  "create_matchups eng matchups_raw = map select_won (ranked_matchups eng matchups_raw)"

text \<open>\<^verbatim>\<open>build_database\<close>: the table \<^verbatim>\<open>matchups\<close> it leaves in \<^verbatim>\<open>self.db\<close>
  (the progress lines it prints are left out).\<close>

definition build_database ::
  "((string \<times> rat) list \<Rightarrow> string) \<Rightarrow> engine \<Rightarrow> (string \<rightharpoonup> user) \<Rightarrow> (int \<rightharpoonup> roster) \<Rightarrow>
   (nat \<times> matchup_entry list) list \<Rightarrow> matchups_row list" where
  "build_database dumps eng users rosters matchups =
     create_matchups eng (matchup_records dumps users rosters matchups)"


section \<open>The normalizer and the store on JSON with null\<close>

text \<open>
  What a JSON object has under a key: nothing, \<^verbatim>\<open>null\<close>, or a value.
  \<^verbatim>\<open>obj.get(key, default)\<close> returns the default only when the key is absent; under a
  key that holds \<^verbatim>\<open>null\<close> it returns \<^verbatim>\<open>None\<close>, which is \<open>None\<close> here.  What the
  program then does with \<^verbatim>\<open>None\<close> can raise; the messages of these exceptions are
  written without their quotation marks.
\<close>

datatype 'a field = No_Key | Null | Holds 'a

definition field_get :: "'a field \<Rightarrow> 'a \<Rightarrow> 'a option" where
  "field_get held dflt = (case held of No_Key \<Rightarrow> Some dflt | Null \<Rightarrow> None | Holds v \<Rightarrow> Some v)"

text \<open>
  A user, with the key \<^verbatim>\<open>metadata\<close> and, in the object it holds, the key
  \<^verbatim>\<open>team_name\<close>.  A matchup entry, with the keys \<^verbatim>\<open>points\<close>, \<^verbatim>\<open>players\<close> and
  \<^verbatim>\<open>players_points\<close> and, in the object the last one holds, a key for every player.
  \<^verbatim>\<open>roster_id\<close> and \<^verbatim>\<open>matchup_id\<close> are read with \<^verbatim>\<open>matchup[key]\<close> and are
  fields, as before.  \<^verbatim>\<open>roster.get('owner_id')\<close> has no default and returns \<^verbatim>\<open>None\<close>
  for an absent key as for \<^verbatim>\<open>null\<close>, so the roster of the data model serves.
\<close>

record json_user =
  metadata_key :: "(string \<Rightarrow> string field) field"

record json_matchup =
  roster_id_key :: int
  matchup_id_key :: int
  points_key :: "rat field"
  players_key :: "string list field"
  players_points_key :: "(string \<Rightarrow> rat field) field"

text \<open>The dictionary appended to \<^verbatim>\<open>matchup_records\<close> and the row of \<^verbatim>\<open>matchups\<close>,
  with a team name and points that can be \<^verbatim>\<open>None\<close>: the data frame and the table
  hold \<^verbatim>\<open>NULL\<close> for them.\<close>

record nullable_record =
  week_cell :: nat
  roster_id_cell :: int
  team_name_cell :: "string option"
  matchup_id_cell :: int
  points_cell :: "rat option"
  top_player_id_cell :: "string option"
  top_player_score_cell :: rat
  players_json_cell :: string

record nullable_row = nullable_record +
  won_cell :: int
  rank_in_matchup_cell :: nat

text \<open>
  \<^verbatim>\<open>user.get('metadata', {}).get('team_name', f'Team_{roster_id}')\<close>: when
  \<^verbatim>\<open>metadata\<close> holds \<^verbatim>\<open>null\<close> the first \<^verbatim>\<open>get\<close> returns \<^verbatim>\<open>None\<close> and the second
  raises \<^verbatim>\<open>AttributeError\<close>, which \<^verbatim>\<open>build_database\<close> does not catch; when
  \<^verbatim>\<open>team_name\<close> holds \<^verbatim>\<open>null\<close> the team name is \<^verbatim>\<open>None\<close>.
\<close>

definition resolve_team_name_json ::
  "(string \<rightharpoonup> json_user) \<Rightarrow> (int \<rightharpoonup> roster) \<Rightarrow> int \<Rightarrow> exception + string option" where
  "resolve_team_name_json users rosters rid =
     (let roster = (case rosters rid of Some r \<Rightarrow> r | None \<Rightarrow> \<lparr>owner_id = None\<rparr>);
          owner = owner_id roster;
          user = (case owner of
                    None \<Rightarrow> \<lparr>metadata_key = No_Key\<rparr>
                  | Some oid \<Rightarrow> (case users oid of Some u \<Rightarrow> u | None \<Rightarrow> \<lparr>metadata_key = No_Key\<rparr>))
      in case field_get (metadata_key user) (\<lambda>k. No_Key) of
           None \<Rightarrow> Inl ''NoneType object has no attribute get''
         | Some md \<Rightarrow> Inr (field_get (md ''team_name'') (''Team_'' @ str_int rid)))"

text \<open>
  The player scores.  \<^verbatim>\<open>for player_id in players\<close> raises \<^verbatim>\<open>TypeError\<close> when
  \<^verbatim>\<open>players\<close> holds \<^verbatim>\<open>null\<close>.  In a pass of the loop,
  \<^verbatim>\<open>matchup.get('players_points', {}).get(player_id, 0)\<close> raises \<^verbatim>\<open>AttributeError\<close>
  when \<^verbatim>\<open>players_points\<close> holds \<^verbatim>\<open>null\<close>, and \<^verbatim>\<open>score > 0\<close> raises
  \<^verbatim>\<open>TypeError\<close> when the player's key holds \<^verbatim>\<open>null\<close>.
\<close>

fun player_scores_loop_json ::
  "(string \<Rightarrow> rat field) field \<Rightarrow> string list \<Rightarrow> (string \<times> rat) list \<Rightarrow>
   exception + (string \<times> rat) list" where
  "player_scores_loop_json held [] player_scores = Inr player_scores"
| "player_scores_loop_json held (player_id # players) player_scores =
     (case field_get held (\<lambda>k. No_Key) of
        None \<Rightarrow> Inl ''NoneType object has no attribute get''
      | Some players_points \<Rightarrow>
          (case field_get (players_points player_id) 0 of
             None \<Rightarrow> Inl ''> not supported between instances of NoneType and int''
           | Some score \<Rightarrow>
               if score > 0
               then player_scores_loop_json held players (dict_set player_scores player_id score)
               else player_scores_loop_json held players player_scores))"

definition player_scores_json :: "json_matchup \<Rightarrow> exception + (string \<times> rat) list" where
  "player_scores_json matchup =
     (case field_get (players_key matchup) [] of
        None \<Rightarrow> Inl ''NoneType object is not iterable''
      | Some players \<Rightarrow> player_scores_loop_json (players_points_key matchup) players [])"

text \<open>One pass of the inner loop: the team name first, then
  \<^verbatim>\<open>points = matchup.get('points', 0)\<close>, then the player scores, the top scorer and
  the record.\<close>

definition normalize_json ::
  "((string \<times> rat) list \<Rightarrow> string) \<Rightarrow> (string \<rightharpoonup> json_user) \<Rightarrow> (int \<rightharpoonup> roster) \<Rightarrow> nat \<Rightarrow>
   json_matchup \<Rightarrow> exception + nullable_record" where
  "normalize_json dumps users rosters wk matchup =
     (case resolve_team_name_json users rosters (roster_id_key matchup) of
        Inl e \<Rightarrow> Inl e
      | Inr name \<Rightarrow>
          (case player_scores_json matchup of
             Inl e \<Rightarrow> Inl e
           | Inr player_scores \<Rightarrow>
               Inr \<lparr>week_cell = wk,
                    roster_id_cell = roster_id_key matchup,
                    team_name_cell = name,
                    matchup_id_cell = matchup_id_key matchup,
                    points_cell = field_get (points_key matchup) 0,
                    top_player_id_cell = fst (top_scorer player_scores),
                    top_player_score_cell = snd (top_scorer player_scores),
                    players_json_cell = dumps player_scores\<rparr>))"

text \<open>The two loops: the records are appended in turn, and the first pass that raises
  ends \<^verbatim>\<open>build_database\<close> with its exception.\<close>

fun append_each :: "('a \<Rightarrow> exception + 'b) \<Rightarrow> 'a list \<Rightarrow> exception + 'b list" where
  "append_each f [] = Inr []"
| "append_each f (x # xs) =
     (case f x of
        Inl e \<Rightarrow> Inl e
      | Inr y \<Rightarrow> (case append_each f xs of Inl e \<Rightarrow> Inl e | Inr ys \<Rightarrow> Inr (y # ys)))"

definition matchup_records_json ::
  "((string \<times> rat) list \<Rightarrow> string) \<Rightarrow> (string \<rightharpoonup> json_user) \<Rightarrow> (int \<rightharpoonup> roster) \<Rightarrow>
   (nat \<times> json_matchup list) list \<Rightarrow> exception + nullable_record list" where
  "matchup_records_json dumps users rosters matchups =
     append_each (\<lambda>(wk, matchup). normalize_json dumps users rosters wk matchup)
       (concat (map (\<lambda>(wk, entries). map (Pair wk) entries) matchups))"

text \<open>
  \<^verbatim>\<open>ORDER BY key\<close> on a column with \<^verbatim>\<open>NULL\<close>: the rows with a value are ordered as
  before, and the rows with \<^verbatim>\<open>NULL\<close>, in their arrival order, come before or after
  them.  Which of the two is a setting of the engine, the parameter \<open>nulls_first\<close>.
\<close>

definition order_by_nullable :: "engine \<Rightarrow> bool \<Rightarrow> ('a \<Rightarrow> rat option) \<Rightarrow> 'a list \<Rightarrow> 'a list" where
  "order_by_nullable eng nulls_first key rows =
     (let valued = order_by eng (\<lambda>r. case key r of Some v \<Rightarrow> v | None \<Rightarrow> 0)
                     (filter (\<lambda>r. key r \<noteq> None) rows);
          nulls = order_by eng (\<lambda>r. 0) (filter (\<lambda>r. key r = None) rows)
      in if nulls_first then nulls @ valued else valued @ nulls)"

text \<open>The SQL of \<^verbatim>\<open>build_database\<close> on these rows: \<^verbatim>\<open>ROW_NUMBER() OVER (PARTITION BY
  week, matchup_id ORDER BY points DESC)\<close>, then \<^verbatim>\<open>won\<close>.\<close>

definition ranked_matchups_json ::
  "engine \<Rightarrow> bool \<Rightarrow> nullable_record list \<Rightarrow> (nullable_record \<times> nat) list" where
  "ranked_matchups_json eng nulls_first matchups_raw =
     concat (map (\<lambda>(k, g). number_rows
                    (order_by_nullable eng nulls_first (\<lambda>r. map_option uminus (points_cell r)) g))
               (group_by (\<lambda>r. (week_cell r, matchup_id_cell r)) matchups_raw))"

definition select_won_json :: "nullable_record \<times> nat \<Rightarrow> nullable_row" where
  "select_won_json ranked =
     (case ranked of (r, rank) \<Rightarrow>
        \<lparr>week_cell = week_cell r, roster_id_cell = roster_id_cell r,
         team_name_cell = team_name_cell r, matchup_id_cell = matchup_id_cell r,
         points_cell = points_cell r, top_player_id_cell = top_player_id_cell r,
         top_player_score_cell = top_player_score_cell r,
         players_json_cell = players_json_cell r,
         won_cell = (if rank = 1 then 1 else 0), rank_in_matchup_cell = rank\<rparr>)"

definition create_matchups_json :: "engine \<Rightarrow> bool \<Rightarrow> nullable_record list \<Rightarrow> nullable_row list" where
  "create_matchups_json eng nulls_first matchups_raw =
     map select_won_json (ranked_matchups_json eng nulls_first matchups_raw)"

text \<open>
  \<^verbatim>\<open>build_database\<close>: the exception that ends it, or the table it leaves.  Without
  any record the data frame \<^verbatim>\<open>pd.DataFrame([])\<close> has no columns: the engine does not
  accept it, and \<^verbatim>\<open>build_database\<close> ends with the engine's exception.
\<close>

definition build_database_json ::
  "((string \<times> rat) list \<Rightarrow> string) \<Rightarrow> engine \<Rightarrow> bool \<Rightarrow> (string \<rightharpoonup> json_user) \<Rightarrow>
   (int \<rightharpoonup> roster) \<Rightarrow> (nat \<times> json_matchup list) list \<Rightarrow> exception + nullable_row list" where
  "build_database_json dumps eng nulls_first users rosters matchups =
     (case matchup_records_json dumps users rosters matchups of
        Inl e \<Rightarrow> Inl e
      | Inr matchups_raw \<Rightarrow>
          if matchups_raw = [] then Inl ''Need a DataFrame with at least one column''
          else Inr (create_matchups_json eng nulls_first matchups_raw))"

text \<open>JSON without null, as JSON: a key of the data model that is \<open>None\<close> is absent,
  and one that is \<open>Some v\<close> holds \<open>v\<close>.\<close>

definition json_of_user :: "user \<Rightarrow> json_user" where
  "json_of_user u =
     \<lparr>metadata_key =
        (case metadata u of
           None \<Rightarrow> No_Key
         | Some md \<Rightarrow> Holds (\<lambda>k. case md k of None \<Rightarrow> No_Key | Some s \<Rightarrow> Holds s))\<rparr>"

definition json_of_entry :: "matchup_entry \<Rightarrow> json_matchup" where
  "json_of_entry m =
     \<lparr>roster_id_key = raw_roster_id m, matchup_id_key = raw_matchup_id m,
      points_key = (case raw_points m of None \<Rightarrow> No_Key | Some p \<Rightarrow> Holds p),
      players_key = (case raw_players m of None \<Rightarrow> No_Key | Some ps \<Rightarrow> Holds ps),
      players_points_key =
        (case raw_players_points m of
           None \<Rightarrow> No_Key
         | Some pp \<Rightarrow> Holds (\<lambda>k. case pp k of None \<Rightarrow> No_Key | Some s \<Rightarrow> Holds s))\<rparr>"

text \<open>A record and a row without \<^verbatim>\<open>NULL\<close>, among those that can hold it.\<close>

definition nullable_of_record :: "matchup_record \<Rightarrow> nullable_record" where
  "nullable_of_record r =
     \<lparr>week_cell = week r, roster_id_cell = roster_id r, team_name_cell = Some (team_name r),
      matchup_id_cell = matchup_id r, points_cell = Some (points r),
      top_player_id_cell = top_player_id r, top_player_score_cell = top_player_score r,
      players_json_cell = players_json r\<rparr>"

definition nullable_of_row :: "matchups_row \<Rightarrow> nullable_row" where
  "nullable_of_row r =
     \<lparr>week_cell = week r, roster_id_cell = roster_id r, team_name_cell = Some (team_name r),
      matchup_id_cell = matchup_id r, points_cell = Some (points r),
      top_player_id_cell = top_player_id r, top_player_score_cell = top_player_score r,
      players_json_cell = players_json r,
      won_cell = won r, rank_in_matchup_cell = rank_in_matchup r\<rparr>"

section \<open>Query library\<close>

text \<open>What a method prints: a line of text, or a data frame.\<close>

datatype 'f printed = Text string | Frame 'f

text \<open>The result tables of the fixed queries, by their columns; then the whole table
  (\<^verbatim>\<open>SELECT *\<close>) and the count a statement that changes rows reports.\<close>

datatype data_frame =
    Count_Weeks "(string \<times> nat \<times> string) list"
  | Score_Rank "(string \<times> nat \<times> rat \<times> nat) list"
  | Count_Avg_Weeks "(string \<times> nat \<times> rat \<times> string) list"
  | Count_Avg_Min_Max "(string \<times> nat \<times> rat \<times> rat \<times> rat) list"
  | All_Columns "matchups_row list"
  | Changes nat

text \<open>\<^verbatim>\<open>self.db.execute(query)\<close> for a \<^verbatim>\<open>SELECT\<close> statement: the statement is
  evaluated on the table, and the database is left as it is.\<close>

definition execute_select ::
  "(matchups_row list \<Rightarrow> 'r) \<Rightarrow> matchups_row list \<Rightarrow> matchups_row list \<times> 'r" where
  "execute_select query db = (db, query db)"

text \<open>Stat 1: \<^verbatim>\<open>SELECT team_name, COUNT(*), STRING_AGG(CAST(week as VARCHAR), ', ') FROM
  (SELECT ..., ROW_NUMBER() OVER (PARTITION BY week ORDER BY points DESC) as rank FROM
  matchups) WHERE rank = 1 GROUP BY team_name ORDER BY count_of_highest_scores DESC\<close>.\<close>

definition stat_1_query :: "engine \<Rightarrow> matchups_row list \<Rightarrow> (string \<times> nat \<times> string) list" where
  "stat_1_query eng tbl =
     order_by eng (\<lambda>(t, c, ws). - of_nat c)
       (map (\<lambda>(t, g). (t, length g, string_agg '', '' (map (\<lambda>(r, rank). str_nat (week r)) g)))
          (group_by (\<lambda>(r, rank). team_name r)
             (filter (\<lambda>(r, rank). rank = 1)
                (row_number_over eng week (\<lambda>r. - points r) tbl))))"

text \<open>Stat 2: \<^verbatim>\<open>SELECT team_name, week, points, ROW_NUMBER() OVER (ORDER BY points DESC)
  as rank FROM matchups ORDER BY points DESC LIMIT 10\<close>.\<close>

definition stat_2_query :: "engine \<Rightarrow> matchups_row list \<Rightarrow> (string \<times> nat \<times> rat \<times> nat) list" where
  "stat_2_query eng tbl =
     take 10
       (order_by eng (\<lambda>(t, w, p, rank). - p)
          (map (\<lambda>(r, rank). (team_name r, week r, points r, rank))
             (row_number_over eng (\<lambda>r. ()) (\<lambda>r. - points r) tbl)))"

text \<open>Stat 3: as stat 1, with \<^verbatim>\<open>ORDER BY points ASC\<close> in the window.\<close>

definition stat_3_query :: "engine \<Rightarrow> matchups_row list \<Rightarrow> (string \<times> nat \<times> string) list" where
  "stat_3_query eng tbl =
     order_by eng (\<lambda>(t, c, ws). - of_nat c)
       (map (\<lambda>(t, g). (t, length g, string_agg '', '' (map (\<lambda>(r, rank). str_nat (week r)) g)))
          (group_by (\<lambda>(r, rank). team_name r)
             (filter (\<lambda>(r, rank). rank = 1)
                (row_number_over eng week (\<lambda>r. points r) tbl))))"

text \<open>Stat 3b: \<^verbatim>\<open>SELECT team_name, week, points, ROW_NUMBER() OVER (ORDER BY points ASC)
  as rank FROM matchups ORDER BY points ASC LIMIT 10\<close>.\<close>

definition stat_3b_query :: "engine \<Rightarrow> matchups_row list \<Rightarrow> (string \<times> nat \<times> rat \<times> nat) list" where
  "stat_3b_query eng tbl =
     take 10
       (order_by eng (\<lambda>(t, w, p, rank). p)
          (map (\<lambda>(r, rank). (team_name r, week r, points r, rank))
             (row_number_over eng (\<lambda>r. ()) (\<lambda>r. points r) tbl)))"

text \<open>Stat 4: \<^verbatim>\<open>weekly_lowest\<close> is \<^verbatim>\<open>SELECT week, MIN(points) FROM matchups GROUP BY
  week\<close>; \<^verbatim>\<open>wins_vs_lowest\<close> joins it to \<^verbatim>\<open>matchups\<close> on the week, where
  \<^verbatim>\<open>m.points = wl.lowest_score AND m.won = 1\<close>; the result groups by team name and is
  ordered by the count, descending.\<close>

definition stat_4_query ::
  "engine \<Rightarrow> matchups_row list \<Rightarrow> (string \<times> nat \<times> rat \<times> string) list" where
  "stat_4_query eng tbl =
     (let weekly_lowest = map (\<lambda>(w, g). (w, Min (set (map points g)))) (group_by week tbl);
          wins_vs_lowest =
            concat (map (\<lambda>m. concat (map (\<lambda>(w, lowest_score).
                if week m = w \<and> points m = lowest_score \<and> won m = 1 then [m] else [])
              weekly_lowest)) tbl)
      in order_by eng (\<lambda>(t, c, a, ws). - of_nat c)
           (map (\<lambda>(t, g). (t, length g, avg eng (map points g),
                            string_agg '', '' (map (\<lambda>r. str_nat (week r)) g)))
              (group_by team_name wins_vs_lowest)))"

text \<open>Stat 5: as stat 4, with \<^verbatim>\<open>MAX(points)\<close> per week and \<^verbatim>\<open>m.won = 0\<close>.\<close>

definition stat_5_query ::
  "engine \<Rightarrow> matchups_row list \<Rightarrow> (string \<times> nat \<times> rat \<times> string) list" where
  "stat_5_query eng tbl =
     (let weekly_highest = map (\<lambda>(w, g). (w, Max (set (map points g)))) (group_by week tbl);
          losses_vs_highest =
            concat (map (\<lambda>m. concat (map (\<lambda>(w, highest_score).
                if week m = w \<and> points m = highest_score \<and> won m = 0 then [m] else [])
              weekly_highest)) tbl)
      in order_by eng (\<lambda>(t, c, a, ws). - of_nat c)
           (map (\<lambda>(t, g). (t, length g, avg eng (map points g),
                            string_agg '', '' (map (\<lambda>r. str_nat (week r)) g)))
              (group_by team_name losses_vs_highest)))"

text \<open>Stat 6: \<^verbatim>\<open>SELECT team_name, COUNT(*), AVG(points), MIN(points), MAX(points) FROM
  matchups WHERE won = 1 GROUP BY team_name ORDER BY avg_points_in_win DESC\<close>.\<close>

definition stat_6_query ::
  "engine \<Rightarrow> matchups_row list \<Rightarrow> (string \<times> nat \<times> rat \<times> rat \<times> rat) list" where
  "stat_6_query eng tbl =
     order_by eng (\<lambda>(t, c, a, lo, hi). - a)
       (map (\<lambda>(t, g). (t, length g, avg eng (map points g),
                        Min (set (map points g)), Max (set (map points g))))
          (group_by team_name (filter (\<lambda>r. won r = 1) tbl)))"

text \<open>Stat 7: as stat 6, with \<^verbatim>\<open>WHERE won = 0\<close>.\<close>

definition stat_7_query ::
  "engine \<Rightarrow> matchups_row list \<Rightarrow> (string \<times> nat \<times> rat \<times> rat \<times> rat) list" where
  "stat_7_query eng tbl =
     order_by eng (\<lambda>(t, c, a, lo, hi). - a)
       (map (\<lambda>(t, g). (t, length g, avg eng (map points g),
                        Min (set (map points g)), Max (set (map points g))))
          (group_by team_name (filter (\<lambda>r. won r = 0) tbl)))"

text \<open>
  The methods: each prints its heading, executes its query, prints the data frame and
  returns it.  A method is a function from the database to the database it leaves, the
  lines it prints and the frame it returns.  \<^verbatim>\<open>stat_1_highest_scores_by_week\<close> executes
  its query twice.
\<close>

definition stat_1_highest_scores_by_week ::
  "engine \<Rightarrow> matchups_row list \<Rightarrow>
   matchups_row list \<times> data_frame printed list \<times> (string \<times> nat \<times> string) list" where
  "stat_1_highest_scores_by_week eng db =
     (let (db1, result) = execute_select (stat_1_query eng) db;
          (db2, df) = execute_select (stat_1_query eng) db1
      in (db2, [Text (CHR 0x0A # ''=== STAT 1: Most Highest Scores by Week ===''),
                Frame (Count_Weeks df)], df))"

definition stat_2_top_10_scores_overall ::
  "engine \<Rightarrow> matchups_row list \<Rightarrow>
   matchups_row list \<times> data_frame printed list \<times> (string \<times> nat \<times> rat \<times> nat) list" where
  "stat_2_top_10_scores_overall eng db =
     (let (db1, df) = execute_select (stat_2_query eng) db
      in (db1, [Text (CHR 0x0A # ''=== STAT 2: Top 10 Scores Overall ===''),
                Frame (Score_Rank df)], df))"

definition stat_3_lowest_scores_by_week ::
  "engine \<Rightarrow> matchups_row list \<Rightarrow>
   matchups_row list \<times> data_frame printed list \<times> (string \<times> nat \<times> string) list" where
  "stat_3_lowest_scores_by_week eng db =
     (let (db1, df) = execute_select (stat_3_query eng) db
      in (db1, [Text (CHR 0x0A # ''=== STAT 3: Most Lowest Scores by Week ===''),
                Frame (Count_Weeks df)], df))"

definition stat_3b_top_10_lowest_scores_overall ::
  "engine \<Rightarrow> matchups_row list \<Rightarrow>
   matchups_row list \<times> data_frame printed list \<times> (string \<times> nat \<times> rat \<times> nat) list" where
  "stat_3b_top_10_lowest_scores_overall eng db =
     (let (db1, df) = execute_select (stat_3b_query eng) db
      in (db1, [Text (CHR 0x0A # ''=== STAT 3B: Top 10 Lowest Scores Overall ===''),
                Frame (Score_Rank df)], df))"

definition stat_4_most_wins_vs_lowest_score ::
  "engine \<Rightarrow> matchups_row list \<Rightarrow>
   matchups_row list \<times> data_frame printed list \<times> (string \<times> nat \<times> rat \<times> string) list" where
  "stat_4_most_wins_vs_lowest_score eng db =
     (let (db1, df) = execute_select (stat_4_query eng) db
      in (db1, [Text (CHR 0x0A # ''=== STAT 4: Most Wins Against Lowest Score ===''),
                Frame (Count_Avg_Weeks df)], df))"

definition stat_5_most_losses_vs_highest_score ::
  "engine \<Rightarrow> matchups_row list \<Rightarrow>
   matchups_row list \<times> data_frame printed list \<times> (string \<times> nat \<times> rat \<times> string) list" where
  "stat_5_most_losses_vs_highest_score eng db =
     (let (db1, df) = execute_select (stat_5_query eng) db
      in (db1, [Text (CHR 0x0A # ''=== STAT 5: Most Losses Against Highest Score ===''),
                Frame (Count_Avg_Weeks df)], df))"

definition stat_6_avg_points_in_win ::
  "engine \<Rightarrow> matchups_row list \<Rightarrow>
   matchups_row list \<times> data_frame printed list \<times> (string \<times> nat \<times> rat \<times> rat \<times> rat) list" where
  "stat_6_avg_points_in_win eng db =
     (let (db1, df) = execute_select (stat_6_query eng) db
      in (db1, [Text (CHR 0x0A # ''=== STAT 6: Average Points in a Win ===''),
                Frame (Count_Avg_Min_Max df)], df))"

definition stat_7_avg_points_in_loss ::
  "engine \<Rightarrow> matchups_row list \<Rightarrow>
   matchups_row list \<times> data_frame printed list \<times> (string \<times> nat \<times> rat \<times> rat \<times> rat) list" where
  "stat_7_avg_points_in_loss eng db =
     (let (db1, df) = execute_select (stat_7_query eng) db
      in (db1, [Text (CHR 0x0A # ''=== STAT 7: Average Points in a Loss ===''),
                Frame (Count_Avg_Min_Max df)], df))"

text \<open>\<^verbatim>\<open>run_all_stats\<close>: the banner, then the eight methods in turn, each on the
  database the one before left; the frames they return are dropped.\<close>

definition run_all_stats ::
  "engine \<Rightarrow> matchups_row list \<Rightarrow> matchups_row list \<times> data_frame printed list" where
  "run_all_stats eng db =
     (let banner = [Text (replicate 80 CHR ''=''), Text ''FANTASY FOOTBALL LEAGUE STATISTICS'',
                    Text (replicate 80 CHR ''='')];
          (db1, out1, df1) = stat_1_highest_scores_by_week eng db;
          (db2, out2, df2) = stat_2_top_10_scores_overall eng db1;
          (db3, out3, df3) = stat_3_lowest_scores_by_week eng db2;
          (db4, out4, df4) = stat_3b_top_10_lowest_scores_overall eng db3;
          (db5, out5, df5) = stat_4_most_wins_vs_lowest_score eng db4;
          (db6, out6, df6) = stat_5_most_losses_vs_highest_score eng db5;
          (db7, out7, df7) = stat_6_avg_points_in_win eng db6;
          (db8, out8, df8) = stat_7_avg_points_in_loss eng db7
      in (db8, banner @ out1 @ out2 @ out3 @ out4 @ out5 @ out6 @ out7 @ out8))"



section \<open>Ad-hoc query gate and the interactive loop\<close>

text \<open>
  What the \<^verbatim>\<open>try\<close> blocks tell apart: an exception of class \<^verbatim>\<open>Exception\<close> (with
  its message), caught by \<^verbatim>\<open>except Exception\<close>, and \<^verbatim>\<open>KeyboardInterrupt\<close>, which
  that clause does not catch.
\<close>

datatype raised = Exception exception | Keyboard_Interrupt

text \<open>
  \<^verbatim>\<open>self.db.execute(query).df()\<close> for a text the operator typed: the engine parses
  and runs whatever statement the text holds.  It is a parameter: from the text and the
  database to the database it leaves and either what was raised or the data frame.
\<close>

type_synonym ('db, 'df) execute = "string \<Rightarrow> 'db \<Rightarrow> 'db \<times> (raised + 'df)"

text \<open>\<^verbatim>\<open>interactive_query\<close>: the database it leaves, what it prints, and either what
  it raises or what it returns (\<open>None\<close> is Python's \<^verbatim>\<open>None\<close>).\<close>

definition interactive_query ::
  "('db, 'df) execute \<Rightarrow> string \<Rightarrow> 'db \<Rightarrow> 'db \<times> 'df printed list \<times> (raised + 'df option)" where
  "interactive_query execute query db =
     (case execute query db of
        (db', Inr df) \<Rightarrow> (db', [Frame df], Inr (Some df))
      | (db', Inl (Exception e)) \<Rightarrow> (db', [Text (''Error executing query: '' @ e)], Inr None)
      | (db', Inl Keyboard_Interrupt) \<Rightarrow> (db', [], Inl Keyboard_Interrupt))"

text \<open>\<^verbatim>\<open>str.strip()\<close> and \<^verbatim>\<open>str.lower()\<close> on ASCII text (a \<open>char\<close> is a byte; the
  white space and the letters beyond ASCII are not modelled).\<close>

definition is_space :: "char \<Rightarrow> bool" where
  "is_space c \<longleftrightarrow> (let n = (of_char c :: nat) in (9 \<le> n \<and> n \<le> 13) \<or> (28 \<le> n \<and> n \<le> 32))"

definition py_strip :: "string \<Rightarrow> string" where
  "py_strip s = rev (dropWhile is_space (rev (dropWhile is_space s)))"

definition py_lower :: "string \<Rightarrow> string" where
  "py_lower s =
     map (\<lambda>c. let n = (of_char c :: nat) in if 65 \<le> n \<and> n \<le> 90 then char_of (n + 32) else c) s"

text \<open>
  What \<^verbatim>\<open>input()\<close> does at one prompt: it returns a line, or the operator interrupts
  (\<^verbatim>\<open>KeyboardInterrupt\<close>), or it raises an exception of class \<^verbatim>\<open>Exception\<close>
  (\<^verbatim>\<open>EOFError\<close>).
\<close>

datatype input_event = Line string | Interrupt | Input_Error exception

datatype loop_status = Awaiting_Input | Exited

text \<open>
  The \<^verbatim>\<open>while True\<close> loop of \<^verbatim>\<open>main\<close> on the events of the prompts to come.  When
  the events run out the loop is blocked in \<^verbatim>\<open>input()\<close>: it has not ended.
\<close>

fun main_loop ::
  "('db, 'df) execute \<Rightarrow> input_event list \<Rightarrow> 'db \<Rightarrow> 'df printed list \<Rightarrow>
   loop_status \<times> 'db \<times> 'df printed list" where
  "main_loop execute [] db out = (Awaiting_Input, db, out @ [Text (CHR 0x0A # ''Enter SQL query: '')])"
| "main_loop execute (ev # evs) db out =
     (let out1 = out @ [Text (CHR 0x0A # ''Enter SQL query: '')] in
      case ev of
        Interrupt \<Rightarrow> (Exited, db, out1)
      | Input_Error e \<Rightarrow> main_loop execute evs db (out1 @ [Text (''Error: '' @ e)])
      | Line s \<Rightarrow>
          (let query = py_strip s in
           if py_lower query = ''quit'' then (Exited, db, out1)
           else if query \<noteq> [] then
             (case interactive_query execute query db of
                (db', shown, Inl Keyboard_Interrupt) \<Rightarrow> (Exited, db', out1 @ shown)
              | (db', shown, Inl (Exception e)) \<Rightarrow>
                  main_loop execute evs db' (out1 @ shown @ [Text (''Error: '' @ e)])
              | (db', shown, Inr df) \<Rightarrow> main_loop execute evs db' (out1 @ shown))
           else main_loop execute evs db out1))"

text \<open>An input line that makes the loop run a query: not blank, and not \<^verbatim>\<open>quit\<close>.\<close>

definition is_query_line :: "string \<Rightarrow> bool" where
  "is_query_line s \<longleftrightarrow> py_lower (py_strip s) \<noteq> ''quit'' \<and> py_strip s \<noteq> []"

text \<open>The events that end the loop: the exit command and the operator's interrupt.\<close>

definition ends_loop :: "input_event \<Rightarrow> bool" where
  "ends_loop ev =
     (case ev of
        Line s \<Rightarrow> py_lower (py_strip s) = ''quit''
      | Interrupt \<Rightarrow> True
      | Input_Error e \<Rightarrow> False)"

section \<open>Example inputs\<close>

text \<open>
  A fragment of the engine for examples.  It runs two statements as SQL defines them:
  the first returns every row and leaves the table as it is, the second deletes every
  row and reports how many.  Every other text is taken as one the engine cannot parse.
\<close>

definition duckdb_fragment :: "(matchups_row list, data_frame) execute" where
  "duckdb_fragment query db =
     (if query = ''SELECT * FROM matchups'' then (db, Inr (All_Columns db))
      else if query = ''DELETE FROM matchups'' then ([], Inr (Changes (length db)))
      else (db, Inl (Exception
              (''Parser Error: syntax error at or near '' @ takeWhile (\<lambda>c. c \<noteq> CHR '' '') query))))"

text \<open>A league: the owner of roster 1 named the team, the owner of roster 2 did not,
  the owner of roster 3 is not a user of the league, roster 4 has no owner, roster 5
  does not exist, and the owner of roster 6 has no metadata.\<close>

definition example_users :: "string \<rightharpoonup> user" where
  "example_users = [''u1'' \<mapsto> \<lparr>metadata = Some [''team_name'' \<mapsto> ''Team A'']\<rparr>,
                    ''u2'' \<mapsto> \<lparr>metadata = Some Map.empty\<rparr>,
                    ''u3'' \<mapsto> \<lparr>metadata = None\<rparr>]"

definition example_rosters :: "int \<rightharpoonup> roster" where
  "example_rosters = [1 \<mapsto> \<lparr>owner_id = Some ''u1''\<rparr>, 2 \<mapsto> \<lparr>owner_id = Some ''u2''\<rparr>,
                      3 \<mapsto> \<lparr>owner_id = Some ''u9''\<rparr>, 4 \<mapsto> \<lparr>owner_id = None\<rparr>,
                      6 \<mapsto> \<lparr>owner_id = Some ''u3''\<rparr>]"

text \<open>Week 1: Team A scores 120.5 and meets roster 2, which scores 99; roster 3 plays
  in another matchup and its entry has neither points nor player points.\<close>

definition entry_a :: matchup_entry where
  "entry_a = \<lparr>raw_roster_id = 1, raw_matchup_id = 1, raw_points = Some (241 / 2),
              raw_players = Some [''p1'', ''p2'', ''p3'', ''p1''],
              raw_players_points = Some [''p1'' \<mapsto> 30, ''p2'' \<mapsto> 0, ''p3'' \<mapsto> 181 / 2]\<rparr>"

definition entry_b :: matchup_entry where
  "entry_b = \<lparr>raw_roster_id = 2, raw_matchup_id = 1, raw_points = Some 99,
              raw_players = Some [''p4''], raw_players_points = Some [''p4'' \<mapsto> 99]\<rparr>"

definition entry_c :: matchup_entry where
  "entry_c = \<lparr>raw_roster_id = 3, raw_matchup_id = 2, raw_points = None,
              raw_players = Some [''p5''], raw_players_points = None\<rparr>"

definition example_matchups :: "(nat \<times> matchup_entry list) list" where
  "example_matchups = [(1, [entry_a, entry_b, entry_c])]"

text \<open>A stand-in for \<^verbatim>\<open>json.dumps\<close> that writes the keys only.\<close>

definition keys_only :: "(string \<times> rat) list \<Rightarrow> string" where
  "keys_only player_scores = concat (map fst player_scores)"

definition example_table :: "matchups_row list" where
  "example_table =
     build_database keys_only reversing_engine example_users example_rosters example_matchups"

text \<open>
  The same league as JSON, with two more owners: the metadata of the owner of roster 7
  holds \<^verbatim>\<open>null\<close> under \<^verbatim>\<open>team_name\<close>, and the owner of roster 8 holds \<^verbatim>\<open>null\<close> under
  \<^verbatim>\<open>metadata\<close>.  \<open>metadata_with held\<close> is the metadata object that has \<open>held\<close> under
  \<^verbatim>\<open>team_name\<close> and no other key.
\<close>

definition metadata_with :: "string field \<Rightarrow> string \<Rightarrow> string field" where
  "metadata_with held k = (if k = ''team_name'' then held else No_Key)"

definition json_users :: "string \<rightharpoonup> json_user" where
  "json_users = [''u1'' \<mapsto> \<lparr>metadata_key = Holds (metadata_with (Holds ''Team A''))\<rparr>,
                 ''u2'' \<mapsto> \<lparr>metadata_key = Holds (metadata_with No_Key)\<rparr>,
                 ''u3'' \<mapsto> \<lparr>metadata_key = No_Key\<rparr>,
                 ''u4'' \<mapsto> \<lparr>metadata_key = Holds (metadata_with Null)\<rparr>,
                 ''u5'' \<mapsto> \<lparr>metadata_key = Null\<rparr>]"

definition json_rosters :: "int \<rightharpoonup> roster" where
  "json_rosters = example_rosters(7 \<mapsto> \<lparr>owner_id = Some ''u4''\<rparr>, 8 \<mapsto> \<lparr>owner_id = Some ''u5''\<rparr>)"

text \<open>An entry of matchup 1 for a roster, with what it has under \<^verbatim>\<open>points\<close>, and
  without the keys of the players.\<close>

definition json_entry :: "int \<Rightarrow> rat field \<Rightarrow> json_matchup" where
  "json_entry rid held =
     \<lparr>roster_id_key = rid, matchup_id_key = 1, points_key = held,
      players_key = No_Key, players_points_key = No_Key\<rparr>"

text \<open>Week 1 with three entries: roster 1 scores 120.5, the entry of roster 2 has no
  points, roster 7 scores 80.\<close>

definition json_matchups :: "(nat \<times> json_matchup list) list" where
  "json_matchups = [(1, [json_entry 1 (Holds (241 / 2)), json_entry 2 No_Key,
                         json_entry 7 (Holds 80)])]"





text \<open>An API whose week 5 request fails in transport and whose week 2 answers 503.\<close>

definition week5_fails :: "nat requests_get" where
  "week5_fails wk =
     (if wk = 5 then Inl ''Connection aborted''
      else if wk = 2 then Inr (Response 503 (Inl ''no body''))
      else Inr (Response 200 (Inr [wk])))"

text \<open>An API that answers every week with status 200.\<close>

definition every_week_ok :: "nat requests_get" where
  "every_week_ok wk = Inr (Response 200 (Inr [wk]))"

text \<open>An API whose week 20 request fails in transport.\<close>

definition week20_fails :: "nat requests_get" where
  "week20_fails wk =
     (if wk = 20 then Inl ''Read timed out'' else Inr (Response 200 (Inr [wk])))"

section \<open>Properties of the league data client\<close>

lemma map_of_dict_set: "map_of (dict_set d k v) = (map_of d)(k \<mapsto> v)"
  by (induction d k v rule: dict_set.induct) auto

lemma dict_get_dict_set: "dict_get (dict_set d k v) k' = (if k' = k then Some v else dict_get d k')"
  by (simp add: dict_get_def map_of_dict_set)

lemma keys_dict_set: "fst ` set (dict_set d k v) = insert k (fst ` set d)"
  by (induction d k v rule: dict_set.induct) auto

lemma distinct_dict_set: "distinct (map fst d) \<Longrightarrow> distinct (map fst (dict_set d k v))"
  by (induction d k v rule: dict_set.induct) (auto simp: keys_dict_set)

lemma dict_get_dict_update:
  "distinct (map fst e) \<Longrightarrow>
   dict_get (dict_update d e) k = (case dict_get e k of Some v \<Rightarrow> Some v | None \<Rightarrow> dict_get d k)"
  unfolding dict_update_def
proof (induction e arbitrary: d)
  case Nil
  then show ?case by (simp add: dict_get_def)
next
  case (Cons p e)
  obtain k' v' where p: "p = (k', v')" by (cases p)
  have "k' \<notin> fst ` set e" using Cons.prems p by auto
  then have none: "map_of e k' = None" by (simp add: map_of_eq_None_iff)
  show ?case
    using Cons.IH [of "dict_set d k' v'"] Cons.prems none
    by (auto simp: p dict_get_def map_of_dict_set split: option.splits)
qed

lemma fetch_matchups_loop_requested:
  "requested (fetch_matchups_loop get ws st) =
     requested st @ takeWhile (\<lambda>w. \<not> aborts (get w)) ws
       @ take 1 (dropWhile (\<lambda>w. \<not> aborts (get w)) ws)"
  by (induction ws arbitrary: st)
     (auto simp: aborts_def split: sum.splits)

lemma fetch_matchups_loop_by_week:
  "dict_get (by_week (fetch_matchups_loop get ws st)) v =
     (if v \<in> set (takeWhile (\<lambda>w. \<not> aborts (get w)) ws)
      then (case stored (get v) of Some body \<Rightarrow> Some body | None \<Rightarrow> dict_get (by_week st) v)
      else dict_get (by_week st) v)"
  by (induction ws arbitrary: st)
     (auto simp: aborts_def stored_def dict_get_dict_set split: sum.splits)

lemma fetch_matchups_loop_distinct:
  "distinct (map fst (by_week st)) \<Longrightarrow> distinct (map fst (by_week (fetch_matchups_loop get ws st)))"
  by (induction ws arbitrary: st) (auto simp: distinct_dict_set split: sum.splits)

lemma fetch_playoff_loop_same_pattern:
  "by_week st = by_week st' \<Longrightarrow> requested st = requested st' \<Longrightarrow>
   by_week (fetch_playoff_loop get ws st) =
     by_week (fetch_matchups_loop get (map (\<lambda>k. k + 17) ws) st') \<and>
   requested (fetch_playoff_loop get ws st) =
     requested (fetch_matchups_loop get (map (\<lambda>k. k + 17) ws) st')"
proof (induction ws arbitrary: st st')
  case Nil
  then show ?case by simp
next
  case (Cons wk ws)
  show ?case
  proof (cases "get (wk + 17)")
    case (Inl e)
    then show ?thesis using Cons.prems by simp
  next
    case (Inr response)
    show ?thesis
    proof (cases "status_code response = 200")
      case True
      show ?thesis
      proof (cases "json response")
        case (Inl e)
        then show ?thesis using Inr True Cons.prems by simp
      next
        case body: (Inr body)
        show ?thesis
          using Inr True body Cons.prems
          by (simp add: Cons.IH)
      qed
    next
      case False
      then show ?thesis using Inr Cons.prems by (simp add: Cons.IH)
    qed
  qed
qed

lemma playoff_range: "map (\<lambda>k. k + 17) [1..<5] = [18..<22]"
  by (simp add: upt_rec)

lemma takeWhile_upt_first:
  assumes "a \<le> w" "w < b" "\<forall>v. a \<le> v \<and> v < w \<longrightarrow> P v" "\<not> P w"
  shows "takeWhile P [a..<b] = [a..<w]" and "dropWhile P [a..<b] = [w..<b]"
proof -
  have split: "[a..<b] = [a..<w] @ [w..<b]"
    using assms(1,2) by (metis le_Suc_ex less_imp_le_nat upt_add_eq_append)
  have hd: "[w..<b] = w # [Suc w..<b]" using assms(2) by (simp add: upt_conv_Cons)
  show "takeWhile P [a..<b] = [a..<w]"
    unfolding split hd using assms(3,4) by (simp add: takeWhile_tail)
  show "dropWhile P [a..<b] = [w..<b]"
    unfolding split hd using assms(3,4) by (simp add: dropWhile_append)
qed

lemma takeWhile_upt_prefix:
  assumes "a \<le> w" "w \<le> b" "\<forall>v. a \<le> v \<and> v < w \<longrightarrow> P v"
  shows "takeWhile P [a..<b] = [a..<w] @ takeWhile P [w..<b]"
    and "dropWhile P [a..<b] = dropWhile P [w..<b]"
proof -
  have split: "[a..<b] = [a..<w] @ [w..<b]"
    using assms(1,2) by (metis le_Suc_ex upt_add_eq_append)
  have all: "\<And>x. x \<in> set [a..<w] \<Longrightarrow> P x" using assms(3) by simp
  show "takeWhile P [a..<b] = [a..<w] @ takeWhile P [w..<b]"
    unfolding split using all by (rule takeWhile_append2)
  show "dropWhile P [a..<b] = dropWhile P [w..<b]"
    unfolding split using all by (rule dropWhile_append2)
qed

lemma requested_prefix:
  assumes "a \<le> b"
  shows "\<exists>n. a \<le> n \<and> n \<le> b \<and> takeWhile P [a..<b] @ take 1 (dropWhile P [a..<b]) = [a..<n]"
proof (cases "\<forall>v. a \<le> v \<and> v < b \<longrightarrow> P v")
  case True
  then have tw: "takeWhile P [a..<b] = [a..<b]" and dw: "dropWhile P [a..<b] = []" by auto
  have "takeWhile P [a..<b] @ take 1 (dropWhile P [a..<b]) = [a..<b]"
    unfolding tw dw by simp
  then show ?thesis using assms by blast
next
  case False
  define w where "w = (LEAST v. a \<le> v \<and> v < b \<and> \<not> P v)"
  have ex: "\<exists>v. a \<le> v \<and> v < b \<and> \<not> P v" using False by blast
  have w: "a \<le> w \<and> w < b \<and> \<not> P w" unfolding w_def using ex by (rule LeastI_ex)
  have before: "\<forall>v. a \<le> v \<and> v < w \<longrightarrow> P v"
  proof (intro allI impI)
    fix v assume v: "a \<le> v \<and> v < w"
    show "P v"
    proof (rule ccontr)
      assume "\<not> P v"
      then have "a \<le> v \<and> v < b \<and> \<not> P v" using v w by auto
      then have "w \<le> v" unfolding w_def by (rule Least_le)
      then show False using v by simp
    qed
  qed
  have "takeWhile P [a..<b] = [a..<w]" "dropWhile P [a..<b] = [w..<b]"
    using takeWhile_upt_first [of a w b P] w before by auto
  then have "takeWhile P [a..<b] @ take 1 (dropWhile P [a..<b]) = [a..<Suc w]"
    using w by (simp add: upt_conv_Cons)
  then show ?thesis using w by (intro exI [of _ "Suc w"]) auto
qed

lemma fetch_matchups_requested:
  "requested (fetch_matchups get) =
     takeWhile (\<lambda>w. \<not> aborts (get w)) [1..<18] @ take 1 (dropWhile (\<lambda>w. \<not> aborts (get w)) [1..<18])"
  by (simp add: fetch_matchups_def fetch_matchups_loop_requested)

lemma fetch_matchups_by_week:
  "dict_get (by_week (fetch_matchups get)) v =
     (if v \<in> set (takeWhile (\<lambda>w. \<not> aborts (get w)) [1..<18]) then stored (get v) else None)"
  unfolding fetch_matchups_def fetch_matchups_loop_by_week
  by (simp add: dict_get_def split: option.splits)

text \<open>
  Claim C2.  \<^verbatim>\<open>fetch_matchups\<close> requests the weeks 1, 2, ... in order, up to week 17
  at most.  Let week \<open>w\<close> of 1..17 be reached (no earlier week ended the loop).  Every
  earlier week is in the result exactly when its response had status 200 (with its parsed
  body).  If the request for \<open>w\<close> raises, \<open>w\<close> is the last week requested and
  \<open>w\<close> and all later weeks are absent from the result.  If the request for \<open>w\<close>
  returns a response with a status other than 200, only \<open>w\<close> is left out and the next
  week is requested.  If nothing raises in any week, all of 1..17 are requested and the
  result holds exactly the weeks answered with status 200.
\<close>

theorem fetch_matchups_stops_or_skips:
  fixes get :: "'m requests_get"
  assumes "1 \<le> w" and "w \<le> 17" and "\<forall>v. 1 \<le> v \<and> v < w \<longrightarrow> \<not> aborts (get v)"
  shows "(\<exists>n. n \<le> 17 \<and> requested (fetch_matchups get) = [1..<Suc n]) \<and>
         (\<forall>v. v < w \<longrightarrow> dict_get (by_week (fetch_matchups get)) v = (if 1 \<le> v then stored (get v) else None)) \<and>
         (\<forall>e. get w = Inl e \<longrightarrow>
            requested (fetch_matchups get) = [1..<Suc w] \<and>
            (\<forall>v. w \<le> v \<longrightarrow> dict_get (by_week (fetch_matchups get)) v = None)) \<and>
         (\<forall>r. get w = Inr r \<and> status_code r \<noteq> 200 \<longrightarrow>
            dict_get (by_week (fetch_matchups get)) w = None \<and>
            (w < 17 \<longrightarrow> Suc w \<in> set (requested (fetch_matchups get)))) \<and>
         ((\<forall>v. 1 \<le> v \<and> v \<le> 17 \<longrightarrow> \<not> aborts (get v)) \<longrightarrow>
            requested (fetch_matchups get) = [1..<18] \<and>
            (\<forall>v. dict_get (by_week (fetch_matchups get)) v =
               (if 1 \<le> v \<and> v \<le> 17 then stored (get v) else None)))"
proof -
  let ?P = "\<lambda>w. \<not> aborts (get w)"
  have complete: "(\<forall>v. 1 \<le> v \<and> v \<le> 17 \<longrightarrow> \<not> aborts (get v)) \<longrightarrow>
            requested (fetch_matchups get) = [1..<18] \<and>
            (\<forall>v. dict_get (by_week (fetch_matchups get)) v =
               (if 1 \<le> v \<and> v \<le> 17 then stored (get v) else None))"
  proof
    assume none: "\<forall>v. 1 \<le> v \<and> v \<le> 17 \<longrightarrow> \<not> aborts (get v)"
    then have tw: "takeWhile ?P [1..<18] = [1..<18]" and dw: "dropWhile ?P [1..<18] = []"
      by auto
    show "requested (fetch_matchups get) = [1..<18] \<and>
            (\<forall>v. dict_get (by_week (fetch_matchups get)) v =
               (if 1 \<le> v \<and> v \<le> 17 then stored (get v) else None))"
      unfolding fetch_matchups_requested fetch_matchups_by_week tw dw by auto
  qed
  have pre: "takeWhile ?P [1..<18] = [1..<w] @ takeWhile ?P [w..<18]"
            "dropWhile ?P [1..<18] = dropWhile ?P [w..<18]"
    using takeWhile_upt_prefix [of 1 w 18 ?P] assms by auto
  have wcons: "[w..<18] = w # [Suc w..<18]" using assms(2) by (simp add: upt_conv_Cons)
  have order: "\<exists>n. n \<le> 17 \<and> requested (fetch_matchups get) = [1..<Suc n]"
  proof -
    obtain n where n: "1 \<le> n" "n \<le> 18"
      "takeWhile ?P [1..<18] @ take 1 (dropWhile ?P [1..<18]) = [1..<n]"
      using requested_prefix [of 1 18 ?P] by auto
    then obtain m where "n = Suc m" by (cases n) auto
    then show ?thesis using n by (auto simp: fetch_matchups_requested)
  qed
  have earlier: "\<forall>v. v < w \<longrightarrow>
      dict_get (by_week (fetch_matchups get)) v = (if 1 \<le> v then stored (get v) else None)"
  proof (intro allI impI)
    fix v assume "v < w"
    have out: "0 \<notin> set (takeWhile ?P [1..<18])" by (auto dest: set_takeWhileD)
    have "v \<in> set (takeWhile ?P [1..<18])" if "1 \<le> v"
      unfolding pre(1) using that \<open>v < w\<close> by simp
    then show "dict_get (by_week (fetch_matchups get)) v = (if 1 \<le> v then stored (get v) else None)"
      using out unfolding fetch_matchups_by_week by (cases "v = 0") auto
  qed
  have raised: "\<forall>e. get w = Inl e \<longrightarrow>
      requested (fetch_matchups get) = [1..<Suc w] \<and>
      (\<forall>v. w \<le> v \<longrightarrow> dict_get (by_week (fetch_matchups get)) v = None)"
  proof (intro allI impI)
    fix e assume "get w = Inl e"
    then have ab: "aborts (get w)" by (simp add: aborts_def)
    have tw: "takeWhile ?P [1..<18] = [1..<w]" and dw: "dropWhile ?P [1..<18] = [w..<18]"
      using pre ab by (simp_all add: wcons)
    show "requested (fetch_matchups get) = [1..<Suc w] \<and>
      (\<forall>v. w \<le> v \<longrightarrow> dict_get (by_week (fetch_matchups get)) v = None)"
      unfolding fetch_matchups_requested fetch_matchups_by_week tw dw wcons
      using assms(1) by auto
  qed
  have skipped: "\<forall>r. get w = Inr r \<and> status_code r \<noteq> 200 \<longrightarrow>
      dict_get (by_week (fetch_matchups get)) w = None \<and>
      (w < 17 \<longrightarrow> Suc w \<in> set (requested (fetch_matchups get)))"
  proof (intro allI impI)
    fix r assume r: "get w = Inr r \<and> status_code r \<noteq> 200"
    then have nab: "\<not> aborts (get w)" and st: "stored (get w) = None"
      by (simp_all add: aborts_def stored_def)
    have next_week: "Suc w \<in> set (requested (fetch_matchups get))" if "w < 17"
    proof -
      have scons: "[Suc w..<18] = Suc w # [Suc (Suc w)..<18]"
        using that by (simp add: upt_conv_Cons)
      show ?thesis
        unfolding fetch_matchups_requested pre wcons scons using nab
        by (cases "aborts (get (Suc w))") simp_all
    qed
    show "dict_get (by_week (fetch_matchups get)) w = None \<and>
      (w < 17 \<longrightarrow> Suc w \<in> set (requested (fetch_matchups get)))"
      using next_week by (simp add: fetch_matchups_by_week st)
  qed
  show ?thesis using order earlier raised skipped complete by blast
qed


text \<open>Witness for C2: week 2 answers 503 and is skipped, week 5 raises and ends the loop.\<close>

theorem fetch_matchups_stops_or_skips_witness:
  "requested (fetch_matchups every_week_ok) = [1..<18] \<and>
   dict_get (by_week (fetch_matchups every_week_ok)) 17 = Some [17] \<and>
   requested (fetch_matchups week5_fails) = [1, 2, 3, 4, 5] \<and>
   dict_get (by_week (fetch_matchups week5_fails)) 2 = None \<and>
   3 \<in> set (requested (fetch_matchups week5_fails)) \<and>
   dict_get (by_week (fetch_matchups week5_fails)) 4 = Some [4] \<and>
   dict_get (by_week (fetch_matchups week5_fails)) 5 = None \<and>
   dict_get (by_week (fetch_matchups week5_fails)) 6 = None"
proof -
  have reach5: "\<forall>v. 1 \<le> v \<and> v < 5 \<longrightarrow> \<not> aborts (week5_fails v)"
    by (simp add: week5_fails_def aborts_def)
  have reach2: "\<forall>v. 1 \<le> v \<and> v < 2 \<longrightarrow> \<not> aborts (week5_fails v)"
    by (simp add: week5_fails_def aborts_def)
  have w5: "week5_fails 5 = Inl ''Connection aborted''" by (simp add: week5_fails_def)
  have w2: "week5_fails 2 = Inr (Response 503 (Inl ''no body''))" by (simp add: week5_fails_def)
  have s4: "stored (week5_fails 4) = Some [4]" by (simp add: week5_fails_def stored_def)
  have up: "[1..<Suc 5] = [1, 2, 3, 4, 5::nat]" by (simp add: upt_rec)
  have ok: "\<forall>v. 1 \<le> v \<and> v \<le> 17 \<longrightarrow> \<not> aborts (every_week_ok v)"
    "\<forall>v. 1 \<le> v \<and> v < 1 \<longrightarrow> \<not> aborts (every_week_ok v)"
    by (simp_all add: every_week_ok_def aborts_def)
  have s17: "stored (every_week_ok 17) = Some [17]" by (simp add: every_week_ok_def stored_def)
  have le: "(1::nat) \<le> 1" "(1::nat) \<le> 17" by simp_all
  have all: "requested (fetch_matchups every_week_ok) = [1..<18] \<and>
      (\<forall>v. dict_get (by_week (fetch_matchups every_week_ok)) v =
         (if 1 \<le> v \<and> v \<le> 17 then stored (every_week_ok v) else None))"
    using fetch_matchups_stops_or_skips [of 1 every_week_ok, OF le ok(2)] ok(1) by blast
  then have full: "requested (fetch_matchups every_week_ok) = [1..<18]"
    "dict_get (by_week (fetch_matchups every_week_ok)) 17 = Some [17]"
    using s17 by simp_all
  have part: "requested (fetch_matchups week5_fails) = [1, 2, 3, 4, 5] \<and>
   dict_get (by_week (fetch_matchups week5_fails)) 2 = None \<and>
   3 \<in> set (requested (fetch_matchups week5_fails)) \<and>
   dict_get (by_week (fetch_matchups week5_fails)) 4 = Some [4] \<and>
   dict_get (by_week (fetch_matchups week5_fails)) 5 = None \<and>
   dict_get (by_week (fetch_matchups week5_fails)) 6 = None"
    using fetch_matchups_stops_or_skips [of 5 week5_fails, OF _ _ reach5]
      fetch_matchups_stops_or_skips [of 2 week5_fails, OF _ _ reach2] w5 w2 s4 up
    by auto
  show ?thesis using full part by blast
qed

lemma dict_get_Nil: "dict_get [] k = None"
  by (simp add: dict_get_def)

lemma playoff_weeks_same_pattern:
  "by_week (playoff_weeks get) =
     by_week (fetch_matchups_loop get [18..<22] \<lparr>by_week = [], requested = [], console = []\<rparr>) \<and>
   requested (playoff_weeks get) =
     requested (fetch_matchups_loop get [18..<22] \<lparr>by_week = [], requested = [], console = []\<rparr>)"
  unfolding playoff_weeks_def playoff_range [symmetric]
  by (rule fetch_playoff_loop_same_pattern) simp_all

lemma playoff_weeks_requested:
  "requested (playoff_weeks get) =
     takeWhile (\<lambda>w. \<not> aborts (get w)) [18..<22] @ take 1 (dropWhile (\<lambda>w. \<not> aborts (get w)) [18..<22])"
  unfolding conjunct2 [OF playoff_weeks_same_pattern] fetch_matchups_loop_requested by simp

lemma playoff_weeks_by_week:
  "dict_get (by_week (playoff_weeks get)) v =
     (if v \<in> set (takeWhile (\<lambda>w. \<not> aborts (get w)) [18..<22]) then stored (get v) else None)"
  unfolding conjunct1 [OF playoff_weeks_same_pattern] fetch_matchups_loop_by_week
  by (simp add: dict_get_Nil split: option.splits)

lemma playoff_weeks_distinct: "distinct (map fst (by_week (playoff_weeks get)))"
  unfolding conjunct1 [OF playoff_weeks_same_pattern]
  by (rule fetch_matchups_loop_distinct) simp

lemma fetch_playoff_matchups_merge:
  "dict_get (by_week (fetch_playoff_matchups get matchups)) v =
     (case dict_get (by_week (playoff_weeks get)) v of
        Some body \<Rightarrow> Some body | None \<Rightarrow> dict_get matchups v)"
  by (simp add: fetch_playoff_matchups_def Let_def dict_get_dict_update playoff_weeks_distinct)

lemma fetch_playoff_matchups_requested:
  "requested (fetch_playoff_matchups get matchups) = requested (playoff_weeks get)"
  by (simp add: fetch_playoff_matchups_def Let_def)

text \<open>
  Claim C8.  \<^verbatim>\<open>fetch_playoff_matchups\<close> runs the per-week pattern of the
  regular-season loop over the weeks 18..21: its local dictionary and its requests are
  those of \<open>fetch_matchups_loop\<close> on \<open>[18..<22]\<close>.  The weeks fetched are merged into
  \<^verbatim>\<open>self.matchups\<close> (a fetched week replaces, every other key is kept).  If the
  request for a reached week \<open>w\<close> of 18..21 raises, \<open>w\<close> is the last week requested
  and nothing is merged for \<open>w\<close> or any later week: the loop does not go on to the
  weeks after an exception.  As in the regular season, a status other than 200 leaves
  out that week only, and the next week is requested.
\<close>

theorem fetch_playoff_matchups_same_pattern:
  fixes get :: "'m requests_get"
  assumes "18 \<le> w" and "w \<le> 21" and "\<forall>v. 18 \<le> v \<and> v < w \<longrightarrow> \<not> aborts (get v)"
  shows "by_week (playoff_weeks get) =
           by_week (fetch_matchups_loop get [18..<22] \<lparr>by_week = [], requested = [], console = []\<rparr>) \<and>
         requested (fetch_playoff_matchups get matchups) =
           requested (fetch_matchups_loop get [18..<22] \<lparr>by_week = [], requested = [], console = []\<rparr>) \<and>
         (\<forall>v. dict_get (by_week (fetch_playoff_matchups get matchups)) v =
            (case dict_get (by_week (playoff_weeks get)) v of
               Some body \<Rightarrow> Some body | None \<Rightarrow> dict_get matchups v)) \<and>
         (\<forall>v. v < w \<longrightarrow> dict_get (by_week (playoff_weeks get)) v =
            (if 18 \<le> v then stored (get v) else None)) \<and>
         (\<forall>e. get w = Inl e \<longrightarrow>
            requested (fetch_playoff_matchups get matchups) = [18..<Suc w] \<and>
            (\<forall>v. w \<le> v \<longrightarrow>
               dict_get (by_week (fetch_playoff_matchups get matchups)) v = dict_get matchups v)) \<and>
         (\<forall>r. get w = Inr r \<and> status_code r \<noteq> 200 \<longrightarrow>
            dict_get (by_week (playoff_weeks get)) w = None \<and>
            (w < 21 \<longrightarrow> Suc w \<in> set (requested (fetch_playoff_matchups get matchups))))"
proof -
  let ?P = "\<lambda>w. \<not> aborts (get w)"
  have pre: "takeWhile ?P [18..<22] = [18..<w] @ takeWhile ?P [w..<22]"
            "dropWhile ?P [18..<22] = dropWhile ?P [w..<22]"
    using takeWhile_upt_prefix [of 18 w 22 ?P] assms by auto
  have wcons: "[w..<22] = w # [Suc w..<22]" using assms(2) by (simp add: upt_conv_Cons)
  have earlier: "\<forall>v. v < w \<longrightarrow> dict_get (by_week (playoff_weeks get)) v =
            (if 18 \<le> v then stored (get v) else None)"
  proof (intro allI impI)
    fix v assume "v < w"
    have out: "v \<notin> set (takeWhile ?P [18..<22])" if "\<not> 18 \<le> v"
      using that by (auto dest: set_takeWhileD)
    have "v \<in> set (takeWhile ?P [18..<22])" if "18 \<le> v"
      unfolding pre(1) using that \<open>v < w\<close> by simp
    then show "dict_get (by_week (playoff_weeks get)) v = (if 18 \<le> v then stored (get v) else None)"
      using out unfolding playoff_weeks_by_week by auto
  qed
  have raised: "\<forall>e. get w = Inl e \<longrightarrow>
            requested (fetch_playoff_matchups get matchups) = [18..<Suc w] \<and>
            (\<forall>v. w \<le> v \<longrightarrow>
               dict_get (by_week (fetch_playoff_matchups get matchups)) v = dict_get matchups v)"
  proof (intro allI impI)
    fix e assume "get w = Inl e"
    then have ab: "aborts (get w)" by (simp add: aborts_def)
    have tw: "takeWhile ?P [18..<22] = [18..<w]" and dw: "dropWhile ?P [18..<22] = [w..<22]"
      using pre ab by (simp_all add: wcons)
    show "requested (fetch_playoff_matchups get matchups) = [18..<Suc w] \<and>
            (\<forall>v. w \<le> v \<longrightarrow>
               dict_get (by_week (fetch_playoff_matchups get matchups)) v = dict_get matchups v)"
      unfolding fetch_playoff_matchups_requested fetch_playoff_matchups_merge
        playoff_weeks_requested playoff_weeks_by_week tw dw wcons
      using assms(1) by auto
  qed
  have skipped: "\<forall>r. get w = Inr r \<and> status_code r \<noteq> 200 \<longrightarrow>
            dict_get (by_week (playoff_weeks get)) w = None \<and>
            (w < 21 \<longrightarrow> Suc w \<in> set (requested (fetch_playoff_matchups get matchups)))"
  proof (intro allI impI)
    fix r assume r: "get w = Inr r \<and> status_code r \<noteq> 200"
    then have nab: "\<not> aborts (get w)" and st: "stored (get w) = None"
      by (simp_all add: aborts_def stored_def)
    have next_week: "Suc w \<in> set (requested (fetch_playoff_matchups get matchups))" if "w < 21"
    proof -
      have scons: "[Suc w..<22] = Suc w # [Suc (Suc w)..<22]"
        using that by (simp add: upt_conv_Cons)
      show ?thesis
        unfolding fetch_playoff_matchups_requested playoff_weeks_requested pre wcons scons
        using nab by (cases "aborts (get (Suc w))") simp_all
    qed
    show "dict_get (by_week (playoff_weeks get)) w = None \<and>
            (w < 21 \<longrightarrow> Suc w \<in> set (requested (fetch_playoff_matchups get matchups)))"
      using next_week by (simp add: playoff_weeks_by_week st)
  qed
  have merge: "\<forall>v. dict_get (by_week (fetch_playoff_matchups get matchups)) v =
            (case dict_get (by_week (playoff_weeks get)) v of
               Some body \<Rightarrow> Some body | None \<Rightarrow> dict_get matchups v)"
    by (intro allI) (rule fetch_playoff_matchups_merge)
  show ?thesis
    unfolding fetch_playoff_matchups_requested [of get matchups]
    using playoff_weeks_same_pattern [of get] merge earlier
      raised [unfolded fetch_playoff_matchups_requested [of get matchups]]
      skipped [unfolded fetch_playoff_matchups_requested [of get matchups]]
    by blast
qed

text \<open>Witness for C8: week 20 raises; weeks 18 and 19 are merged, week 1 is kept.\<close>

theorem fetch_playoff_matchups_same_pattern_witness:
  "requested (fetch_playoff_matchups week20_fails [(1, [1])]) = [18, 19, 20] \<and>
   dict_get (by_week (fetch_playoff_matchups week20_fails [(1, [1])])) 1 = Some [1] \<and>
   dict_get (by_week (fetch_playoff_matchups week20_fails [(1, [1])])) 19 = Some [19] \<and>
   dict_get (by_week (fetch_playoff_matchups week20_fails [(1, [1])])) 20 = None \<and>
   dict_get (by_week (fetch_playoff_matchups week20_fails [(1, [1])])) 21 = None"
proof -
  have reach: "\<forall>v. 18 \<le> v \<and> v < 20 \<longrightarrow> \<not> aborts (week20_fails v)"
    by (simp add: week20_fails_def aborts_def)
  have le: "(18::nat) \<le> 20" "(20::nat) \<le> 21" by simp_all
  have w20: "week20_fails 20 = Inl ''Read timed out''" by (simp add: week20_fails_def)
  have s19: "stored (week20_fails 19) = Some [19]" by (simp add: week20_fails_def stored_def)
  have up: "[18..<Suc 20] = [18, 19, 20::nat]" by (simp add: upt_rec)
  have old: "dict_get [(1::nat, [1::nat])] 1 = Some [1]" "dict_get [(1::nat, [1::nat])] 19 = None"
    "dict_get [(1::nat, [1::nat])] 20 = None" "dict_get [(1::nat, [1::nat])] 21 = None"
    by (simp_all add: dict_get_def)
  have facts: "requested (fetch_playoff_matchups week20_fails [(1, [1])]) = [18..<Suc 20]"
    "\<forall>v. 20 \<le> v \<longrightarrow> dict_get (by_week (fetch_playoff_matchups week20_fails [(1, [1])])) v
         = dict_get [(1, [1])] v"
    "\<forall>v. v < 20 \<longrightarrow> dict_get (by_week (playoff_weeks week20_fails)) v =
            (if 18 \<le> v then stored (week20_fails v) else None)"
    "\<forall>v. dict_get (by_week (fetch_playoff_matchups week20_fails [(1, [1])])) v =
            (case dict_get (by_week (playoff_weeks week20_fails)) v of
               Some body \<Rightarrow> Some body | None \<Rightarrow> dict_get [(1, [1])] v)"
    using fetch_playoff_matchups_same_pattern [of 20 week20_fails "[(1, [1])]", OF le reach] w20
    by blast+
  have k1: "dict_get (by_week (playoff_weeks week20_fails)) 1 = None"
    and k19: "dict_get (by_week (playoff_weeks week20_fails)) 19 = Some [19]"
    using facts(3) s19 by simp_all
  show ?thesis
    using facts(1,2) facts(4) [rule_format, of 1] facts(4) [rule_format, of 19] k1 k19 old up
    by simp
qed

section \<open>Properties of the matchup normalizer\<close>

lemma set_dict_set_distinct:
  "distinct (map fst d) \<Longrightarrow> set (dict_set d k v) = insert (k, v) {p \<in> set d. fst p \<noteq> k}"
  by (induction d k v rule: dict_set.induct) (auto simp: rev_image_eqI)

lemma player_scores_loop_set:
  "distinct (map fst acc) \<Longrightarrow> (\<forall>p s. (p, s) \<in> set acc \<longrightarrow> s = score_of m p) \<Longrightarrow>
   distinct (map fst (player_scores_loop m ps acc)) \<and>
   set (player_scores_loop m ps acc) =
     set acc \<union> {(p, score_of m p) |p. p \<in> set ps \<and> 0 < score_of m p}"
proof (induction ps arbitrary: acc)
  case Nil
  then show ?case by simp
next
  case (Cons p ps)
  show ?case
  proof (cases "0 < score_of m p")
    case True
    let ?acc = "dict_set acc p (score_of m p)"
    have d: "distinct (map fst ?acc)" using Cons.prems(1) by (rule distinct_dict_set)
    have s: "set ?acc = insert (p, score_of m p) (set acc)"
      using Cons.prems by (auto simp: set_dict_set_distinct)
    have f: "\<forall>q s. (q, s) \<in> set ?acc \<longrightarrow> s = score_of m q"
      using Cons.prems(2) s by auto
    show ?thesis using Cons.IH [OF d f] True s by (auto simp: Let_def)
  next
    case False
    then show ?thesis using Cons.IH [OF Cons.prems] by (auto simp: Let_def)
  qed
qed

lemma player_scores_of_iff:
  "(p, s) \<in> set (player_scores_of m) \<longleftrightarrow> p \<in> set (players_of m) \<and> s = score_of m p \<and> 0 < s"
  using player_scores_loop_set [of "[]" m "players_of m"]
  by (auto simp: player_scores_of_def)

lemma max_by_score_is_max:
  "max_by_score best items \<in> set (best # items) \<and>
   (\<forall>x \<in> set (best # items). snd x \<le> snd (max_by_score best items))"
proof (induction items arbitrary: best)
  case Nil
  then show ?case by simp
next
  case (Cons item items)
  show ?case
    using Cons.IH [of "if snd item > snd best then item else best"]
    by (auto split: if_splits)
qed

text \<open>
  Claim C3.  The mapping that is serialized into \<^verbatim>\<open>players_json\<close> holds exactly the
  players of the entry whose score is strictly greater than zero, each with its score.
  When it is not empty, \<^verbatim>\<open>top_player_id\<close> is one of its players,
  \<^verbatim>\<open>top_player_score\<close> is that player's score and no player in it has a greater
  score.  When no player of the entry has a score above zero, \<^verbatim>\<open>top_player_id\<close> is
  \<open>None\<close> and \<^verbatim>\<open>top_player_score\<close> is 0.
\<close>

theorem normalize_player_scores_top_scorer:
  "players_json (normalize dumps users rosters wk m) = dumps (player_scores_of m) \<and>
   (\<forall>p s. (p, s) \<in> set (player_scores_of m) \<longleftrightarrow>
      p \<in> set (players_of m) \<and> s = score_of m p \<and> 0 < s) \<and>
   (player_scores_of m \<noteq> [] \<longrightarrow>
      (\<exists>p. top_player_id (normalize dumps users rosters wk m) = Some p \<and>
           (p, top_player_score (normalize dumps users rosters wk m)) \<in> set (player_scores_of m)) \<and>
      (\<forall>q s. (q, s) \<in> set (player_scores_of m) \<longrightarrow>
         s \<le> top_player_score (normalize dumps users rosters wk m))) \<and>
   ((\<forall>p \<in> set (players_of m). score_of m p \<le> 0) \<longrightarrow>
      top_player_id (normalize dumps users rosters wk m) = None \<and>
      top_player_score (normalize dumps users rosters wk m) = 0)"
proof -
  have json: "players_json (normalize dumps users rosters wk m) = dumps (player_scores_of m)"
    by (simp add: normalize_def)
  have top: "top_player_id (normalize dumps users rosters wk m) = fst (top_scorer (player_scores_of m))"
    "top_player_score (normalize dumps users rosters wk m) = snd (top_scorer (player_scores_of m))"
    by (simp_all add: normalize_def)
  have some: "(\<exists>p. fst (top_scorer ps) = Some p \<and> (p, snd (top_scorer ps)) \<in> set ps) \<and>
      (\<forall>q s. (q, s) \<in> set ps \<longrightarrow> s \<le> snd (top_scorer ps))" if ne: "ps \<noteq> []" for ps
  proof -
    obtain item items where ps: "ps = item # items" using ne by (cases ps) auto
    show ?thesis
      using max_by_score_is_max [of item items]
      by (simp add: ps top_scorer_def) (metis prod.collapse snd_conv)
  qed
  have none: "player_scores_of m = []" if le: "\<forall>p \<in> set (players_of m). score_of m p \<le> 0"
  proof (rule ccontr)
    assume "player_scores_of m \<noteq> []"
    then obtain p s where "(p, s) \<in> set (player_scores_of m)"
      by (cases "player_scores_of m") auto
    then show False using le by (auto simp: player_scores_of_iff)
  qed
  show ?thesis
    unfolding top using json some [of "player_scores_of m"] none
    by (auto simp: player_scores_of_iff top_scorer_def)
qed

text \<open>Witness for C3: \<open>entry_a\<close> has the scores 30, 0 and 90.5; \<open>entry_c\<close> has none.\<close>

theorem normalize_player_scores_top_scorer_witness:
  "player_scores_of entry_a = [(''p1'', 30), (''p3'', 181 / 2)] \<and>
   top_player_id (normalize keys_only example_users example_rosters 1 entry_a) = Some ''p3'' \<and>
   top_player_score (normalize keys_only example_users example_rosters 1 entry_a) = 181 / 2 \<and>
   top_player_id (normalize keys_only example_users example_rosters 1 entry_c) = None \<and>
   top_player_score (normalize keys_only example_users example_rosters 1 entry_c) = 0"
proof -
  have scores: "player_scores_of entry_a = [(''p1'', 30), (''p3'', 181 / 2)]" by code_simp
  have top: "top_player_id (normalize keys_only example_users example_rosters 1 entry_a) = Some ''p3''"
    by code_simp
  have idle: "\<forall>p \<in> set (players_of entry_c). score_of entry_c p \<le> 0" by code_simp
  have a: "(''p3'', top_player_score (normalize keys_only example_users example_rosters 1 entry_a))
             \<in> set (player_scores_of entry_a)"
    using normalize_player_scores_top_scorer [of keys_only example_users example_rosters 1 entry_a]
      scores top by auto
  have c: "top_player_id (normalize keys_only example_users example_rosters 1 entry_c) = None \<and>
           top_player_score (normalize keys_only example_users example_rosters 1 entry_c) = 0"
    using normalize_player_scores_top_scorer [of keys_only example_users example_rosters 1 entry_c]
      idle by blast
  show ?thesis using scores top a c by auto
qed

section \<open>Properties of the query engine and the analytical store\<close>

lemma scan_order_indices:
  assumes "scans_every_row eng"
  shows "mset (map (\<lambda>i. rows ! i) (filter (\<lambda>i. i < length rows) (scan_order eng (map key rows))))
         = mset rows"
proof -
  let ?p = "scan_order eng (map key rows)"
  have p: "mset ?p = mset [0..<length rows]"
    using assms by (simp add: scans_every_row_def)
  then have "set ?p = set [0..<length rows]" by (rule mset_eq_setD)
  then have keep: "filter (\<lambda>i. i < length rows) ?p = ?p" by (auto simp: filter_id_conv)
  have "mset (map (\<lambda>i. rows ! i) ?p) = image_mset (\<lambda>i. rows ! i) (mset ?p)" by simp
  also have "\<dots> = image_mset (\<lambda>i. rows ! i) (mset [0..<length rows])" by (simp only: p)
  also have "\<dots> = mset (map (\<lambda>i. rows ! i) [0..<length rows])" by simp
  also have "\<dots> = mset rows" by (simp only: map_nth)
  finally show ?thesis by (simp only: keep)
qed

lemma mset_order_by: "scans_every_row eng \<Longrightarrow> mset (order_by eng key rows) = mset rows"
  unfolding order_by_def by (simp only: mset_sort scan_order_indices)

lemma set_order_by: "scans_every_row eng \<Longrightarrow> set (order_by eng key rows) = set rows"
  by (metis mset_order_by set_mset_mset)



lemma map_fst_number_rows: "map fst (number_rows rows) = rows"
  by (simp add: number_rows_def del: upt_Suc)

lemma map_snd_number_rows: "map snd (number_rows rows) = [1..<Suc (length rows)]"
  by (simp add: number_rows_def del: upt_Suc)




lemma mset_concat_filter_keys:
  "distinct ks \<Longrightarrow>
   mset (concat (map (\<lambda>k. filter (\<lambda>r. f r = k) rows) ks)) = filter_mset (\<lambda>r. f r \<in> set ks) (mset rows)"
proof (induction ks)
  case Nil
  then show ?case by simp
next
  case (Cons k ks)
  have "filter_mset (\<lambda>r. f r = k) (mset rows) + filter_mset (\<lambda>r. f r \<in> set ks) (mset rows)
        = filter_mset (\<lambda>r. f r \<in> set (k # ks)) (mset rows)"
    using Cons.prems by (intro multiset_eqI) auto
  then show ?case using Cons by simp
qed

lemma mset_group_by: "mset (concat (map snd (group_by f rows))) = mset rows"
proof -
  have "map snd (group_by f rows) = map (\<lambda>k. filter (\<lambda>r. f r = k) rows) (remdups (map f rows))"
    by (simp add: group_by_def comp_def)
  moreover have "filter_mset (\<lambda>r. f r \<in> f ` set rows) (mset rows) = mset rows"
    by (intro multiset_eqI) (auto simp: not_in_iff)
  ultimately show ?thesis
    using mset_concat_filter_keys [of "remdups (map f rows)" f rows] by simp
qed


lemma mset_concat_map_cong:
  "(\<And>x. x \<in> set xs \<Longrightarrow> mset (h x) = mset (h' x)) \<Longrightarrow>
   mset (concat (map h xs)) = mset (concat (map h' xs))"
  by (induction xs) auto







lemma week_select_won [simp]: "week (select_won x) = week (fst x)"
  and matchup_id_select_won [simp]: "matchup_id (select_won x) = matchup_id (fst x)"
  and points_select_won [simp]: "points (select_won x) = points (fst x)"
  and roster_id_select_won [simp]: "roster_id (select_won x) = roster_id (fst x)"
  and team_name_select_won [simp]: "team_name (select_won x) = team_name (fst x)"
  and rank_select_won [simp]: "rank_in_matchup (select_won x) = snd x"
  and won_select_won [simp]: "won (select_won x) = (if snd x = 1 then 1 else 0)"
  by (simp_all add: select_won_def split: prod.splits)









lemma scans_every_row_stable: "scans_every_row stable_engine"
  by (simp add: scans_every_row_def stable_engine_def)








section \<open>Properties of the normalizer and the store on JSON with null\<close>

lemma append_each_Inr: "append_each f xs = Inr ys \<longleftrightarrow> map f xs = map Inr ys"
proof (induction xs arbitrary: ys)
  case Nil
  then show ?case by auto
next
  case (Cons x xs)
  show ?case
  proof (cases "f x")
    case (Inl e)
    then show ?thesis by (cases ys) auto
  next
    case (Inr y)
    show ?thesis
    proof (cases "append_each f xs")
      case (Inl e)
      then have "map f xs \<noteq> map Inr zs" for zs using Cons.IH [of zs] by simp
      then show ?thesis using Inl Inr by (cases ys) auto
    next
      case tail: (Inr zs)
      then have "map f xs = map Inr zs" using Cons.IH by simp
      then show ?thesis using tail Inr by (cases ys) (auto simp: inj_map_eq_map [OF inj_Inr])
    qed
  qed
qed

lemma append_each_Inl: "append_each f xs = Inl e \<Longrightarrow> \<exists>x \<in> set xs. f x = Inl e"
  by (induction xs) (auto split: sum.splits)

lemma normalize_json_Inl:
  "resolve_team_name_json users rosters (roster_id_key m) = Inl e \<Longrightarrow>
   normalize_json dumps users rosters wk m = Inl e"
  by (simp add: normalize_json_def)

lemma normalize_json_Inr:
  "normalize_json dumps users rosters wk m = Inr rec \<Longrightarrow>
   week_cell rec = wk \<and> roster_id_cell rec = roster_id_key m \<and>
   matchup_id_cell rec = matchup_id_key m \<and>
   points_cell rec = field_get (points_key m) 0 \<and>
   resolve_team_name_json users rosters (roster_id_key m) = Inr (team_name_cell rec)"
  by (auto simp: normalize_json_def split: sum.splits)

lemma normalize_json_points_key:
  "normalize_json dumps users rosters wk (m\<lparr>points_key := held\<rparr>) = Inl e \<longleftrightarrow>
   normalize_json dumps users rosters wk m = Inl e"
proof -
  have "player_scores_json (m\<lparr>points_key := held\<rparr>) = player_scores_json m"
    by (simp add: player_scores_json_def split: option.splits)
  then show ?thesis by (simp add: normalize_json_def split: sum.splits)
qed

lemma mset_order_by_nullable:
  assumes "scans_every_row eng"
  shows "mset (order_by_nullable eng nulls_first key rows) = mset rows"
proof -
  have "mset (filter (\<lambda>r. key r \<noteq> None) rows) + mset (filter (\<lambda>r. key r = None) rows) = mset rows"
    by (induction rows) auto
  then show ?thesis
    by (auto simp: order_by_nullable_def Let_def mset_order_by [OF assms] add.commute)
qed

lemma mset_ranked_matchups_json:
  assumes "scans_every_row eng"
  shows "mset (map fst (ranked_matchups_json eng nulls_first raw)) = mset raw"
proof -
  let ?part = "\<lambda>r. (week_cell r, matchup_id_cell r)"
  let ?ord = "order_by_nullable eng nulls_first (\<lambda>r. map_option uminus (points_cell r))"
  have "map fst (ranked_matchups_json eng nulls_first raw) =
        concat (map (\<lambda>(k, g). ?ord g) (group_by ?part raw))"
    by (simp add: ranked_matchups_json_def map_concat comp_def case_prod_unfold map_fst_number_rows)
  moreover have "mset (concat (map (\<lambda>(k, g). ?ord g) (group_by ?part raw))) =
        mset (concat (map snd (group_by ?part raw)))"
    by (rule mset_concat_map_cong) (auto simp: mset_order_by_nullable [OF assms])
  ultimately show ?thesis by (simp add: mset_group_by)
qed

lemma truncate_select_won_json: "nullable_record.truncate (select_won_json (r, rank)) = r"
  by (simp add: select_won_json_def nullable_record.truncate_def)

lemma mset_create_matchups_json:
  assumes "scans_every_row eng"
  shows "mset (map nullable_record.truncate (create_matchups_json eng nulls_first raw)) = mset raw"
proof -
  have eq: "map nullable_record.truncate (create_matchups_json eng nulls_first raw) =
        map fst (ranked_matchups_json eng nulls_first raw)"
    by (simp add: create_matchups_json_def comp_def truncate_select_won_json [of "fst x" "snd x" for x, simplified])
  show ?thesis unfolding eq by (rule mset_ranked_matchups_json [OF assms])
qed

lemma cells_truncate [simp]:
  "week_cell (nullable_record.truncate row) = week_cell row"
  "roster_id_cell (nullable_record.truncate row) = roster_id_cell row"
  "team_name_cell (nullable_record.truncate row) = team_name_cell row"
  "matchup_id_cell (nullable_record.truncate row) = matchup_id_cell row"
  "points_cell (nullable_record.truncate row) = points_cell row"
  by (simp_all add: nullable_record.truncate_def)

lemma set_create_matchups_json:
  assumes "scans_every_row eng"
  shows "nullable_record.truncate ` set (create_matchups_json eng nulls_first raw) = set raw"
  using mset_create_matchups_json [OF assms, of nulls_first raw, THEN mset_eq_setD] by simp

lemma length_create_matchups_json:
  assumes "scans_every_row eng"
  shows "length (create_matchups_json eng nulls_first raw) = length raw"
  using mset_create_matchups_json [OF assms, of nulls_first raw, THEN mset_eq_length] by simp

lemma length_pairs:
  "length (concat (map (\<lambda>(wk, entries). map (Pair wk) entries) matchups)) =
   sum_list (map (\<lambda>(wk, entries). length entries) matchups)"
  by (induction matchups) auto

lemma set_pairs:
  "set (concat (map (\<lambda>(wk, entries). map (Pair wk) entries) matchups)) =
   {(wk, m). \<exists>entries. (wk, entries) \<in> set matchups \<and> m \<in> set entries}"
  by (induction matchups) auto

lemma matchup_records_json_Inl:
  assumes "matchup_records_json dumps users rosters matchups = Inl e"
  shows "\<exists>(wk, entries) \<in> set matchups. \<exists>m \<in> set entries.
           normalize_json dumps users rosters wk m = Inl e"
proof -
  let ?pairs = "concat (map (\<lambda>(wk, entries). map (Pair wk) entries) matchups)"
  from append_each_Inl [OF assms [unfolded matchup_records_json_def]]
  obtain p where p: "p \<in> set ?pairs"
    "(case p of (wk, m) \<Rightarrow> normalize_json dumps users rosters wk m) = Inl e" by blast
  obtain wk m where pm: "p = (wk, m)" by (cases p)
  from p(1) obtain entries where "(wk, entries) \<in> set matchups" "m \<in> set entries"
    unfolding set_pairs pm by blast
  moreover have "normalize_json dumps users rosters wk m = Inl e"
    using p(2) unfolding pm by simp
  ultimately show ?thesis by blast
qed

lemma matchup_records_json_Inr:
  assumes "matchup_records_json dumps users rosters matchups = Inr raw"
  shows "map (\<lambda>(wk, m). normalize_json dumps users rosters wk m)
           (concat (map (\<lambda>(wk, entries). map (Pair wk) entries) matchups)) = map Inr raw"
  using assms unfolding matchup_records_json_def append_each_Inr .

lemma map_Inr_cong:
  "map f xs = map Inr ys \<Longrightarrow> (\<And>x y. f x = Inr y \<Longrightarrow> g y = h x) \<Longrightarrow> map g ys = map h xs"
proof (induction xs arbitrary: ys)
  case Nil
  then show ?case by simp
next
  case (Cons x xs)
  then show ?case by (cases ys) auto
qed

lemma map_snd_pairs:
  "map snd (concat (map (\<lambda>(wk, entries). map (Pair wk) entries) matchups)) = concat (map snd matchups)"
  by (induction matchups) (auto simp: comp_def)

lemma matchup_records_json_points:
  assumes "matchup_records_json dumps users rosters matchups = Inr raw"
  shows "map points_cell raw =
         map (\<lambda>m. field_get (points_key m) 0) (concat (map snd matchups))"
proof -
  let ?pairs = "concat (map (\<lambda>(wk, entries). map (Pair wk) entries) matchups)"
  have "map points_cell raw = map (\<lambda>p. field_get (points_key (snd p)) 0) ?pairs"
    by (rule map_Inr_cong [OF matchup_records_json_Inr [OF assms]])
       (auto dest: normalize_json_Inr)
  also have "\<dots> = map (\<lambda>m. field_get (points_key m) 0) (map snd ?pairs)"
    by (simp add: comp_def)
  finally show ?thesis by (simp only: map_snd_pairs)
qed

lemma matchup_records_json_member:
  assumes "matchup_records_json dumps users rosters matchups = Inr raw"
    and "(wk, entries) \<in> set matchups" and "m \<in> set entries"
  shows "\<exists>rec \<in> set raw. normalize_json dumps users rosters wk m = Inr rec"
proof -
  let ?pairs = "concat (map (\<lambda>(wk, entries). map (Pair wk) entries) matchups)"
  let ?f = "\<lambda>(wk, m). normalize_json dumps users rosters wk m"
  have "(wk, m) \<in> set ?pairs" unfolding set_pairs using assms(2,3) by blast
  then have "?f (wk, m) \<in> ?f ` set ?pairs" by (rule imageI)
  then have "?f (wk, m) \<in> set (map ?f ?pairs)" by (simp only: set_map)
  then have "normalize_json dumps users rosters wk m \<in> Inr ` set raw"
    unfolding matchup_records_json_Inr [OF assms(1)] by simp
  then show ?thesis by auto
qed

lemma matchup_records_json_length:
  assumes "matchup_records_json dumps users rosters matchups = Inr raw"
  shows "length raw = sum_list (map (\<lambda>(wk, entries). length entries) matchups)"
  using matchup_records_json_Inr [OF assms, THEN arg_cong, of length]
  by (simp add: length_pairs)

lemma matchup_records_json_set:
  assumes "matchup_records_json dumps users rosters matchups = Inr raw" and "rec \<in> set raw"
  shows "\<exists>wk m. normalize_json dumps users rosters wk m = Inr rec"
proof -
  let ?pairs = "concat (map (\<lambda>(wk, entries). map (Pair wk) entries) matchups)"
  let ?f = "\<lambda>(wk, m). normalize_json dumps users rosters wk m"
  have "Inr rec \<in> set (map Inr raw)" using assms(2) by simp
  then have "Inr rec \<in> set (map ?f ?pairs)"
    by (simp only: matchup_records_json_Inr [OF assms(1)])
  then obtain p where "?f p = Inr rec" by auto
  then have "normalize_json dumps users rosters (fst p) (snd p) = Inr rec"
    by (simp add: case_prod_unfold)
  then show ?thesis by blast
qed

text \<open>
  On JSON without null the two models agree: the record and the records of the model
  with null are those of the data model above, and so is the table, when there is a
  record.
\<close>

lemma resolve_team_name_json_typed:
  "resolve_team_name_json (map_option json_of_user \<circ> users) rosters rid =
   Inr (Some (resolve_team_name users rosters rid))"
  by (simp add: resolve_team_name_json_def resolve_team_name_def json_of_user_def field_get_def
      split: option.splits)

lemma player_scores_loop_json_typed:
  "player_scores_loop_json (players_points_key (json_of_entry m)) players player_scores =
   Inr (player_scores_loop m players player_scores)"
proof (induction players arbitrary: player_scores)
  case Nil
  then show ?case by simp
next
  case (Cons player_id players)
  have "\<exists>pp. field_get (players_points_key (json_of_entry m)) (\<lambda>k. No_Key) = Some pp \<and>
             field_get (pp player_id) 0 = Some (score_of m player_id)"
    by (simp add: json_of_entry_def field_get_def score_of_def players_points_of_def
        split: option.splits)
  then show ?case using Cons.IH by (auto simp: Let_def)
qed

lemma player_scores_json_typed: "player_scores_json (json_of_entry m) = Inr (player_scores_of m)"
proof -
  have "field_get (players_key (json_of_entry m)) [] = Some (players_of m)"
    by (simp add: json_of_entry_def field_get_def players_of_def split: option.splits)
  then show ?thesis
    by (simp add: player_scores_json_def player_scores_of_def player_scores_loop_json_typed)
qed

lemma normalize_json_typed:
  "normalize_json dumps (map_option json_of_user \<circ> users) rosters wk (json_of_entry m) =
   Inr (nullable_of_record (normalize dumps users rosters wk m))"
proof -
  have "roster_id_key (json_of_entry m) = raw_roster_id m"
    "matchup_id_key (json_of_entry m) = raw_matchup_id m"
    "field_get (points_key (json_of_entry m)) 0 = Some (case raw_points m of Some p \<Rightarrow> p | None \<Rightarrow> 0)"
    by (simp_all add: json_of_entry_def field_get_def split: option.splits)
  then show ?thesis
    by (simp add: normalize_json_def normalize_def nullable_of_record_def
        resolve_team_name_json_typed player_scores_json_typed)
qed

lemma append_each_map_Inr:
  "(\<And>x. x \<in> set xs \<Longrightarrow> f x = Inr (g x)) \<Longrightarrow> append_each f xs = Inr (map g xs)"
  by (induction xs) auto

lemma append_each_map: "append_each f (map g xs) = append_each (\<lambda>x. f (g x)) xs"
  by (induction xs) (simp_all split: sum.splits)

lemma matchup_records_json_typed:
  "matchup_records_json dumps (map_option json_of_user \<circ> users) rosters
     (map (\<lambda>(wk, entries). (wk, map json_of_entry entries)) matchups) =
   Inr (map nullable_of_record (matchup_records dumps users rosters matchups))"
proof -
  let ?pairs = "concat (map (\<lambda>(wk, entries). map (Pair wk) entries) matchups)"
  have pairs: "concat (map (\<lambda>(wk, entries). map (Pair wk) entries)
                 (map (\<lambda>(wk, entries). (wk, map json_of_entry entries)) matchups)) =
               map (\<lambda>p. (fst p, json_of_entry (snd p))) ?pairs"
    by (induction matchups) (auto simp: comp_def)
  have recs: "matchup_records dumps users rosters matchups =
              map (\<lambda>p. normalize dumps users rosters (fst p) (snd p)) ?pairs"
    by (induction matchups) (auto simp: matchup_records_def comp_def)
  have "append_each (\<lambda>(wk, m). normalize_json dumps (map_option json_of_user \<circ> users) rosters wk m)
          (map (\<lambda>p. (fst p, json_of_entry (snd p))) ?pairs) =
        Inr (map (\<lambda>p. nullable_of_record (normalize dumps users rosters (fst p) (snd p))) ?pairs)"
    unfolding append_each_map
    by (rule append_each_map_Inr) (simp add: normalize_json_typed)
  then show ?thesis
    unfolding matchup_records_json_def pairs recs by (simp add: comp_def)
qed

lemma insort_key_map:
  "insort_key key (g x) (map g xs) = map g (insort_key (\<lambda>r. key (g r)) x xs)"
  by (induction xs) auto

lemma sort_key_map: "sort_key key (map g xs) = map g (sort_key (\<lambda>r. key (g r)) xs)"
  by (induction xs) (auto simp: insort_key_map)

lemma order_by_map:
  "order_by eng key (map g rows) = map g (order_by eng (\<lambda>r. key (g r)) rows)"
proof -
  have keys: "map key (map g rows) = map (\<lambda>r. key (g r)) rows" by simp
  have nth: "map (\<lambda>i. map g rows ! i) (filter (\<lambda>i. i < length rows) is) =
        map g (map (\<lambda>i. rows ! i) (filter (\<lambda>i. i < length rows) is))" for "is"
    by (induction "is") auto
  show ?thesis by (simp only: order_by_def length_map keys nth sort_key_map)
qed

lemma group_by_map:
  "group_by f (map g rows) = map (\<lambda>(k, grp). (k, map g grp)) (group_by (\<lambda>r. f (g r)) rows)"
  by (simp add: group_by_def comp_def filter_map)

lemma number_rows_map:
  "number_rows (map g rows) = map (\<lambda>(r, n). (g r, n)) (number_rows rows)"
  by (simp add: number_rows_def zip_map1 del: upt_Suc)

lemma order_by_Nil: "order_by eng key [] = []"
  by (simp add: order_by_def)

lemma order_by_nullable_typed:
  "order_by_nullable eng nulls_first (\<lambda>r. map_option uminus (points_cell r))
     (map nullable_of_record rows) =
   map nullable_of_record (order_by eng (\<lambda>r. - points r) rows)"
proof -
  have "filter (\<lambda>r. map_option uminus (points_cell r) \<noteq> None) (map nullable_of_record rows) =
        map nullable_of_record rows"
    "filter (\<lambda>r. map_option uminus (points_cell r) = None) (map nullable_of_record rows) = []"
    by (induction rows) (auto simp: nullable_of_record_def)
  then show ?thesis
    by (simp add: order_by_nullable_def Let_def order_by_map nullable_of_record_def order_by_Nil)
qed

lemma select_won_json_typed:
  "select_won_json (nullable_of_record r, rank) = nullable_of_row (select_won (r, rank))"
  by (simp add: select_won_json_def select_won_def nullable_of_record_def nullable_of_row_def)

lemma create_matchups_json_typed:
  "create_matchups_json eng nulls_first (map nullable_of_record raw) =
   map nullable_of_row (create_matchups eng raw)"
proof -
  have part: "(\<lambda>r. (week_cell (nullable_of_record r), matchup_id_cell (nullable_of_record r))) =
              (\<lambda>r. (week r, matchup_id r))"
    by (simp add: nullable_of_record_def)
  show ?thesis
    unfolding create_matchups_json_def create_matchups_def ranked_matchups_json_def
      ranked_matchups_def row_number_over_def group_by_map part
    by (simp add: map_concat comp_def case_prod_unfold order_by_nullable_typed number_rows_map
        select_won_json_typed)
qed

lemma build_database_json_typed:
  "build_database_json dumps eng nulls_first (map_option json_of_user \<circ> users) rosters
     (map (\<lambda>(wk, entries). (wk, map json_of_entry entries)) matchups) =
   (if matchup_records dumps users rosters matchups = [] then Inl ''Need a DataFrame with at least one column''
    else Inr (map nullable_of_row (build_database dumps eng users rosters matchups)))"
  by (simp add: build_database_json_def build_database_def matchup_records_json_typed
      create_matchups_json_typed)

text \<open>
  Claim C4.  The team name that normalization resolves for a matchup entry, case by
  case.  It is the string \<^verbatim>\<open>Team_<roster_id>\<close> when there is no roster record for
  the roster id, when the roster has no owner, when the owner id is no user, when the
  user has no key \<^verbatim>\<open>metadata\<close>, and when the metadata has no key \<^verbatim>\<open>team_name\<close>; it
  is the string under \<^verbatim>\<open>team_name\<close> when there is one.  In the two cases left it is
  no string: a key \<^verbatim>\<open>team_name\<close> that holds \<^verbatim>\<open>null\<close> gives the team name
  \<^verbatim>\<open>None\<close>, with no synthetic name in its place, and a key \<^verbatim>\<open>metadata\<close> that holds
  \<^verbatim>\<open>null\<close> raises \<^verbatim>\<open>AttributeError\<close>.  Normalization raises when the resolution
  does, and the record it builds has the resolved team name; in a table that
  \<^verbatim>\<open>build_database\<close> has built, the team name of every row is this resolution of the
  row's roster id.
\<close>

theorem normalize_team_name_resolution:
  "(let name = resolve_team_name_json users rosters (roster_id_key m);
        synthetic = Inr (Some (''Team_'' @ str_int (roster_id_key m)))
    in (rosters (roster_id_key m) = None \<longrightarrow> name = synthetic) \<and>
       (\<forall>r. rosters (roster_id_key m) = Some r \<longrightarrow>
          (owner_id r = None \<longrightarrow> name = synthetic) \<and>
          (\<forall>oid. owner_id r = Some oid \<longrightarrow>
             (users oid = None \<longrightarrow> name = synthetic) \<and>
             (\<forall>u. users oid = Some u \<longrightarrow>
                (metadata_key u = No_Key \<longrightarrow> name = synthetic) \<and>
                (metadata_key u = Null \<longrightarrow> name = Inl ''NoneType object has no attribute get'') \<and>
                (\<forall>md. metadata_key u = Holds md \<longrightarrow>
                   (md ''team_name'' = No_Key \<longrightarrow> name = synthetic) \<and>
                   (md ''team_name'' = Null \<longrightarrow> name = Inr None) \<and>
                   (\<forall>s. md ''team_name'' = Holds s \<longrightarrow> name = Inr (Some s)))))) \<and>
       (\<forall>e. name = Inl e \<longrightarrow> normalize_json dumps users rosters wk m = Inl e) \<and>
       (\<forall>rec. normalize_json dumps users rosters wk m = Inr rec \<longrightarrow>
          name = Inr (team_name_cell rec))) \<and>
   (\<forall>tbl. build_database_json dumps eng nulls_first users rosters matchups = Inr tbl \<longrightarrow>
      scans_every_row eng \<longrightarrow>
      (\<forall>row \<in> set tbl.
         resolve_team_name_json users rosters (roster_id_cell row) = Inr (team_name_cell row)))"
proof -
  have column: "resolve_team_name_json users rosters (roster_id_cell row) = Inr (team_name_cell row)"
    if built: "build_database_json dumps eng nulls_first users rosters matchups = Inr tbl"
      and eng: "scans_every_row eng" and row: "row \<in> set tbl" for tbl row
  proof -
    from built obtain raw where raw: "matchup_records_json dumps users rosters matchups = Inr raw"
      and tbl: "tbl = create_matchups_json eng nulls_first raw"
      by (auto simp: build_database_json_def split: sum.splits if_splits)
    have "nullable_record.truncate row \<in> nullable_record.truncate ` set tbl"
      using row by (rule imageI)
    then have "nullable_record.truncate row \<in> set raw"
      unfolding tbl set_create_matchups_json [OF eng] .
    from matchup_records_json_set [OF raw this]
    obtain k entry where "normalize_json dumps users rosters k entry =
      Inr (nullable_record.truncate row)" by blast
    from normalize_json_Inr [OF this] show ?thesis by simp
  qed
  have cases: "(let name = resolve_team_name_json users rosters (roster_id_key m);
        synthetic = Inr (Some (''Team_'' @ str_int (roster_id_key m)))
    in (rosters (roster_id_key m) = None \<longrightarrow> name = synthetic) \<and>
       (\<forall>r. rosters (roster_id_key m) = Some r \<longrightarrow>
          (owner_id r = None \<longrightarrow> name = synthetic) \<and>
          (\<forall>oid. owner_id r = Some oid \<longrightarrow>
             (users oid = None \<longrightarrow> name = synthetic) \<and>
             (\<forall>u. users oid = Some u \<longrightarrow>
                (metadata_key u = No_Key \<longrightarrow> name = synthetic) \<and>
                (metadata_key u = Null \<longrightarrow> name = Inl ''NoneType object has no attribute get'') \<and>
                (\<forall>md. metadata_key u = Holds md \<longrightarrow>
                   (md ''team_name'' = No_Key \<longrightarrow> name = synthetic) \<and>
                   (md ''team_name'' = Null \<longrightarrow> name = Inr None) \<and>
                   (\<forall>s. md ''team_name'' = Holds s \<longrightarrow> name = Inr (Some s)))))) \<and>
       (\<forall>e. name = Inl e \<longrightarrow> normalize_json dumps users rosters wk m = Inl e) \<and>
       (\<forall>rec. normalize_json dumps users rosters wk m = Inr rec \<longrightarrow>
          name = Inr (team_name_cell rec)))"
    unfolding Let_def
  proof (intro conjI allI impI)
    fix e assume "resolve_team_name_json users rosters (roster_id_key m) = Inl e"
    then show "normalize_json dumps users rosters wk m = Inl e" by (rule normalize_json_Inl)
  next
    fix rec assume "normalize_json dumps users rosters wk m = Inr rec"
    from normalize_json_Inr [OF this]
    show "resolve_team_name_json users rosters (roster_id_key m) = Inr (team_name_cell rec)"
      by simp
  qed (simp_all add: resolve_team_name_json_def field_get_def)
  show ?thesis using cases column by blast
qed

text \<open>Witness for C4: the eight cases, on the rosters 1 to 8 of the example league, and
  the table of week 1.\<close>

theorem normalize_team_name_resolution_witness:
  "map (\<lambda>rid. resolve_team_name_json json_users json_rosters (roster_id_key (json_entry rid No_Key)))
     [1, 2, 3, 4, 5, 6, 7, 8] =
     [Inr (Some ''Team A''), Inr (Some ''Team_2''), Inr (Some ''Team_3''), Inr (Some ''Team_4''),
      Inr (Some ''Team_5''), Inr (Some ''Team_6''), Inr None, Inl ''NoneType object has no attribute get''] \<and>
   map (\<lambda>rid. map_sum (\<lambda>e. e) team_name_cell
          (normalize_json keys_only json_users json_rosters 1 (json_entry rid No_Key)))
     [1, 7, 8] = [Inr (Some ''Team A''), Inr None, Inl ''NoneType object has no attribute get''] \<and>
   scans_every_row stable_engine \<and>
   map_sum (\<lambda>e. e) (map (\<lambda>row. (roster_id_cell row, team_name_cell row)))
     (build_database_json keys_only stable_engine False json_users json_rosters json_matchups) =
     Inr [(1, Some ''Team A''), (7, None), (2, Some ''Team_2'')]"
proof -
  have rosters: "json_rosters (roster_id_key (json_entry 1 held)) = Some \<lparr>owner_id = Some ''u1''\<rparr>"
    "json_rosters (roster_id_key (json_entry 2 held)) = Some \<lparr>owner_id = Some ''u2''\<rparr>"
    "json_rosters (roster_id_key (json_entry 3 held)) = Some \<lparr>owner_id = Some ''u9''\<rparr>"
    "json_rosters (roster_id_key (json_entry 4 held)) = Some \<lparr>owner_id = None\<rparr>"
    "json_rosters (roster_id_key (json_entry 5 held)) = None"
    "json_rosters (roster_id_key (json_entry 6 held)) = Some \<lparr>owner_id = Some ''u3''\<rparr>"
    "json_rosters (roster_id_key (json_entry 7 held)) = Some \<lparr>owner_id = Some ''u4''\<rparr>"
    "json_rosters (roster_id_key (json_entry 8 held)) = Some \<lparr>owner_id = Some ''u5''\<rparr>"
    for held
    by (simp_all add: json_rosters_def example_rosters_def json_entry_def)
  have users: "json_users ''u1'' = Some \<lparr>metadata_key = Holds (metadata_with (Holds ''Team A''))\<rparr>"
    "json_users ''u2'' = Some \<lparr>metadata_key = Holds (metadata_with No_Key)\<rparr>"
    "json_users ''u9'' = None"
    "json_users ''u3'' = Some \<lparr>metadata_key = No_Key\<rparr>"
    "json_users ''u4'' = Some \<lparr>metadata_key = Holds (metadata_with Null)\<rparr>"
    "json_users ''u5'' = Some \<lparr>metadata_key = Null\<rparr>"
    by (simp_all add: json_users_def)
  have names: "''Team_'' @ str_int (roster_id_key (json_entry 2 held)) = ''Team_2''"
    "''Team_'' @ str_int (roster_id_key (json_entry 3 held)) = ''Team_3''"
    "''Team_'' @ str_int (roster_id_key (json_entry 4 held)) = ''Team_4''"
    "''Team_'' @ str_int (roster_id_key (json_entry 5 held)) = ''Team_5''"
    "''Team_'' @ str_int (roster_id_key (json_entry 6 held)) = ''Team_6''"
    for held
    by (simp_all add: json_entry_def) code_simp+
  have n1: "resolve_team_name_json json_users json_rosters (roster_id_key (json_entry 1 No_Key)) =
      Inr (Some ''Team A'')"
    using normalize_team_name_resolution [where rosters = json_rosters and users = json_users
        and m = "json_entry 1 No_Key", THEN conjunct1, unfolded Let_def]
      rosters(1) users(1)
    by (simp add: metadata_with_def)
  have n2: "resolve_team_name_json json_users json_rosters (roster_id_key (json_entry 2 No_Key)) =
      Inr (Some ''Team_2'')"
    using normalize_team_name_resolution [where rosters = json_rosters and users = json_users
        and m = "json_entry 2 No_Key", THEN conjunct1, unfolded Let_def]
      rosters(2) users(2) names(1) [of No_Key]
    by (simp add: metadata_with_def)
  have n3: "resolve_team_name_json json_users json_rosters (roster_id_key (json_entry 3 No_Key)) =
      Inr (Some ''Team_3'')"
    using normalize_team_name_resolution [where rosters = json_rosters and users = json_users
        and m = "json_entry 3 No_Key", THEN conjunct1, unfolded Let_def]
      rosters(3) users(3) names(2) [of No_Key]
    by simp
  have n4: "resolve_team_name_json json_users json_rosters (roster_id_key (json_entry 4 No_Key)) =
      Inr (Some ''Team_4'')"
    using normalize_team_name_resolution [where rosters = json_rosters and users = json_users
        and m = "json_entry 4 No_Key", THEN conjunct1, unfolded Let_def]
      rosters(4) names(3) [of No_Key]
    by simp
  have n5: "resolve_team_name_json json_users json_rosters (roster_id_key (json_entry 5 No_Key)) =
      Inr (Some ''Team_5'')"
    using normalize_team_name_resolution [where rosters = json_rosters and users = json_users
        and m = "json_entry 5 No_Key", THEN conjunct1, unfolded Let_def]
      rosters(5) names(4) [of No_Key]
    by simp
  have n6: "resolve_team_name_json json_users json_rosters (roster_id_key (json_entry 6 No_Key)) =
      Inr (Some ''Team_6'')"
    using normalize_team_name_resolution [where rosters = json_rosters and users = json_users
        and m = "json_entry 6 No_Key", THEN conjunct1, unfolded Let_def]
      rosters(6) users(4) names(5) [of No_Key]
    by simp
  have n7: "resolve_team_name_json json_users json_rosters (roster_id_key (json_entry 7 No_Key)) =
      Inr None"
    using normalize_team_name_resolution [where rosters = json_rosters and users = json_users
        and m = "json_entry 7 No_Key", THEN conjunct1, unfolded Let_def]
      rosters(7) users(5)
    by (simp add: metadata_with_def)
  have n8: "resolve_team_name_json json_users json_rosters (roster_id_key (json_entry 8 No_Key)) =
      Inl ''NoneType object has no attribute get''"
    using normalize_team_name_resolution [where rosters = json_rosters and users = json_users
        and m = "json_entry 8 No_Key", THEN conjunct1, unfolded Let_def]
      rosters(8) users(6)
    by simp
  have records: "map (\<lambda>rid. map_sum (\<lambda>e. e) team_name_cell
          (normalize_json keys_only json_users json_rosters 1 (json_entry rid No_Key)))
     [1, 7, 8] = [Inr (Some ''Team A''), Inr None, Inl ''NoneType object has no attribute get'']"
    by code_simp
  have tbl: "map_sum (\<lambda>e. e) (map (\<lambda>row. (roster_id_cell row, team_name_cell row)))
     (build_database_json keys_only stable_engine False json_users json_rosters json_matchups) =
     Inr [(1, Some ''Team A''), (7, None), (2, Some ''Team_2'')]"
    by code_simp
  show ?thesis
    using n1 n2 n3 n4 n5 n6 n7 n8 records tbl scans_every_row_stable by simp
qed

text \<open>
  Counterexample to C4 as stated: the owner of roster 7 has \<^verbatim>\<open>null\<close> under
  \<^verbatim>\<open>team_name\<close>, and the record of the roster's entry has the team name \<^verbatim>\<open>None\<close>,
  not \<^verbatim>\<open>Team_7\<close>; the owner of roster 8 has \<^verbatim>\<open>null\<close> under \<^verbatim>\<open>metadata\<close>, and
  normalization of the roster's entry raises, with no record.
\<close>

theorem null_team_name_is_no_string:
  "normalize_json keys_only json_users json_rosters 1 (json_entry 7 (Holds 80)) =
     Inr \<lparr>week_cell = 1, roster_id_cell = 7, team_name_cell = None, matchup_id_cell = 1,
          points_cell = Some 80, top_player_id_cell = None, top_player_score_cell = 0,
          players_json_cell = []\<rparr> \<and>
   normalize_json keys_only json_users json_rosters 1 (json_entry 8 (Holds 80)) =
     Inl ''NoneType object has no attribute get''"
  by code_simp

text \<open>
  Claim C10.  The record that normalization builds for an entry has the points 0 when
  the entry has no key \<^verbatim>\<open>points\<close>, the number under the key when there is one, and
  \<^verbatim>\<open>None\<close> when the key holds \<^verbatim>\<open>null\<close>; and whether normalization raises, and
  what, does not depend on what the entry has under \<^verbatim>\<open>points\<close>.
  \<^verbatim>\<open>build_database\<close> ends with an exception when the normalization of an entry
  raises, or when no week has an entry.  Otherwise it builds the table: every entry of
  every week has its row, with the points as in its record; the table has as many rows
  as the weeks have entries, and its points column is the points of the entries, read
  in this way.  So the points of every row are defined when no entry holds \<^verbatim>\<open>null\<close>
  under \<^verbatim>\<open>points\<close>.
\<close>

theorem absent_points_become_zero:
  assumes "scans_every_row eng"
  shows "(\<forall>rec. normalize_json dumps users rosters wk m = Inr rec \<longrightarrow>
            points_cell rec =
              (case points_key m of No_Key \<Rightarrow> Some 0 | Null \<Rightarrow> None | Holds p \<Rightarrow> Some p)) \<and>
         (\<forall>held e. normalize_json dumps users rosters wk (m\<lparr>points_key := held\<rparr>) = Inl e \<longleftrightarrow>
                    normalize_json dumps users rosters wk m = Inl e) \<and>
         (case build_database_json dumps eng nulls_first users rosters matchups of
            Inl e \<Rightarrow>
              (\<exists>(wk, entries) \<in> set matchups. \<exists>m \<in> set entries.
                 normalize_json dumps users rosters wk m = Inl e) \<or>
              (\<forall>(wk, entries) \<in> set matchups. entries = []) \<and> e = ''Need a DataFrame with at least one column''
          | Inr tbl \<Rightarrow>
              (\<forall>(wk, entries) \<in> set matchups. \<forall>m \<in> set entries.
                 \<exists>row \<in> set tbl.
                   week_cell row = wk \<and> roster_id_cell row = roster_id_key m \<and>
                   matchup_id_cell row = matchup_id_key m \<and>
                   points_cell row =
                     (case points_key m of No_Key \<Rightarrow> Some 0 | Null \<Rightarrow> None | Holds p \<Rightarrow> Some p)) \<and>
              length tbl = sum_list (map (\<lambda>(wk, entries). length entries) matchups) \<and>
              mset (map points_cell tbl) =
                mset (map (\<lambda>m. case points_key m of
                                  No_Key \<Rightarrow> Some 0 | Null \<Rightarrow> None | Holds p \<Rightarrow> Some p)
                        (concat (map snd matchups))) \<and>
              ((\<forall>(wk, entries) \<in> set matchups. \<forall>m \<in> set entries. points_key m \<noteq> Null) \<longrightarrow>
                 (\<forall>row \<in> set tbl. points_cell row \<noteq> None)))"
proof (intro conjI allI impI)
  fix rec assume "normalize_json dumps users rosters wk m = Inr rec"
  from normalize_json_Inr [OF this]
  show "points_cell rec =
          (case points_key m of No_Key \<Rightarrow> Some 0 | Null \<Rightarrow> None | Holds p \<Rightarrow> Some p)"
    by (simp add: field_get_def)
next
  fix held e
  show "normalize_json dumps users rosters wk (m\<lparr>points_key := held\<rparr>) = Inl e \<longleftrightarrow>
        normalize_json dumps users rosters wk m = Inl e"
    by (rule normalize_json_points_key)
next
  show "case build_database_json dumps eng nulls_first users rosters matchups of
            Inl e \<Rightarrow>
              (\<exists>(wk, entries) \<in> set matchups. \<exists>m \<in> set entries.
                 normalize_json dumps users rosters wk m = Inl e) \<or>
              (\<forall>(wk, entries) \<in> set matchups. entries = []) \<and> e = ''Need a DataFrame with at least one column''
          | Inr tbl \<Rightarrow>
              (\<forall>(wk, entries) \<in> set matchups. \<forall>m \<in> set entries.
                 \<exists>row \<in> set tbl.
                   week_cell row = wk \<and> roster_id_cell row = roster_id_key m \<and>
                   matchup_id_cell row = matchup_id_key m \<and>
                   points_cell row =
                     (case points_key m of No_Key \<Rightarrow> Some 0 | Null \<Rightarrow> None | Holds p \<Rightarrow> Some p)) \<and>
              length tbl = sum_list (map (\<lambda>(wk, entries). length entries) matchups) \<and>
              mset (map points_cell tbl) =
                mset (map (\<lambda>m. case points_key m of
                                  No_Key \<Rightarrow> Some 0 | Null \<Rightarrow> None | Holds p \<Rightarrow> Some p)
                        (concat (map snd matchups))) \<and>
              ((\<forall>(wk, entries) \<in> set matchups. \<forall>m \<in> set entries. points_key m \<noteq> Null) \<longrightarrow>
                 (\<forall>row \<in> set tbl. points_cell row \<noteq> None))"
  proof (cases "matchup_records_json dumps users rosters matchups")
    case (Inl e)
    then show ?thesis
      using matchup_records_json_Inl [OF Inl] by (simp add: build_database_json_def)
  next
    case (Inr raw)
    show ?thesis
    proof (cases "raw = []")
      case True
      then have "sum_list (map (\<lambda>(wk, entries). length entries) matchups) = 0"
        using matchup_records_json_length [OF Inr] by simp
      then have "\<forall>(wk, entries) \<in> set matchups. entries = []"
        by (auto simp: sum_list_eq_0_iff)
      then show ?thesis using Inr True by (simp add: build_database_json_def)
    next
      case False
      let ?tbl = "create_matchups_json eng nulls_first raw"
      let ?pts = "\<lambda>m. case points_key m of
                         No_Key \<Rightarrow> Some 0 | Null \<Rightarrow> None | Holds p \<Rightarrow> Some (p::rat)"
      have pts: "field_get (points_key m) 0 = ?pts m" for m
        by (simp add: field_get_def)
      have tbl: "build_database_json dumps eng nulls_first users rosters matchups = Inr ?tbl"
        using Inr False by (simp add: build_database_json_def)
      have rows: "\<exists>row \<in> set ?tbl.
                    week_cell row = wk \<and> roster_id_cell row = roster_id_key m \<and>
                    matchup_id_cell row = matchup_id_key m \<and> points_cell row = ?pts m"
        if "(wk, entries) \<in> set matchups" "m \<in> set entries" for wk entries m
      proof -
        from matchup_records_json_member [OF Inr that]
        obtain rec where rec: "rec \<in> set raw" "normalize_json dumps users rosters wk m = Inr rec"
          by blast
        have "rec \<in> nullable_record.truncate ` set ?tbl"
          unfolding set_create_matchups_json [OF assms] by (rule rec(1))
        then obtain row where row: "row \<in> set ?tbl" "nullable_record.truncate row = rec"
          by (auto simp only: image_iff)
        have "week_cell row = wk \<and> roster_id_cell row = roster_id_key m \<and>
              matchup_id_cell row = matchup_id_key m \<and> points_cell row = ?pts m"
          using normalize_json_Inr [OF rec(2)] row(2) cells_truncate [of row] by (simp add: pts)
        then show ?thesis using row(1) by blast
      qed
      have len: "length ?tbl = sum_list (map (\<lambda>(wk, entries). length entries) matchups)"
        by (simp add: length_create_matchups_json [OF assms] matchup_records_json_length [OF Inr])
      have "mset (map points_cell ?tbl) =
            mset (map points_cell (map nullable_record.truncate ?tbl))"
        by (simp add: comp_def)
      also have "\<dots> = mset (map points_cell raw)"
        using arg_cong [OF mset_create_matchups_json [OF assms, of nulls_first raw],
            of "image_mset points_cell"]
        by (simp add: multiset.map_comp)
      finally have col: "mset (map points_cell ?tbl) = mset (map ?pts (concat (map snd matchups)))"
        by (simp add: matchup_records_json_points [OF Inr] pts)
      have defined: "\<forall>row \<in> set ?tbl. points_cell row \<noteq> None"
        if no_null: "\<forall>(wk, entries) \<in> set matchups. \<forall>m \<in> set entries. points_key m \<noteq> Null"
      proof
        fix row assume "row \<in> set ?tbl"
        then have "points_cell row \<in> set (map ?pts (concat (map snd matchups)))"
          using col [THEN mset_eq_setD] by auto
        then obtain wk entries m where "(wk, entries) \<in> set matchups" "m \<in> set entries"
          "points_cell row = ?pts m" by auto
        then show "points_cell row \<noteq> None" using no_null by (cases "points_key m") auto
      qed
      have all_rows: "\<forall>(wk, entries) \<in> set matchups. \<forall>m \<in> set entries.
                    \<exists>row \<in> set ?tbl.
                      week_cell row = wk \<and> roster_id_cell row = roster_id_key m \<and>
                      matchup_id_cell row = matchup_id_key m \<and> points_cell row = ?pts m"
        using rows by blast
      show ?thesis unfolding tbl sum.case
        by (intro conjI impI all_rows len col defined)
    qed
  qed
qed

text \<open>Witness for C10: the entry of roster 2 has no points; its record and its row have
  the points 0.\<close>

theorem absent_points_become_zero_witness:
  "scans_every_row stable_engine \<and>
   map_sum (\<lambda>e. e) (map (\<lambda>row. (roster_id_cell row, points_cell row)))
     (build_database_json keys_only stable_engine False json_users json_rosters json_matchups) =
     Inr [(1, Some (241 / 2)), (7, Some 80), (2, Some 0)] \<and>
   None \<notin> points_cell ` set (projr (build_database_json keys_only stable_engine False json_users
                                       json_rosters json_matchups)) \<and>
   length (projr (build_database_json keys_only stable_engine False json_users json_rosters
                    json_matchups)) = 3 \<and>
   map_sum (\<lambda>e. e) points_cell
     (normalize_json keys_only json_users json_rosters 1 (json_entry 2 No_Key)) = Inr (Some 0)"
proof -
  have built: "build_database_json keys_only stable_engine False json_users json_rosters json_matchups =
      Inr (projr (build_database_json keys_only stable_engine False json_users json_rosters
                    json_matchups))"
    by code_simp
  have column: "map_sum (\<lambda>e. e) (map (\<lambda>row. (roster_id_cell row, points_cell row)))
     (build_database_json keys_only stable_engine False json_users json_rosters json_matchups) =
     Inr [(1, Some (241 / 2)), (7, Some 80), (2, Some 0)]"
    by code_simp
  have no_null: "\<forall>(wk, entries) \<in> set json_matchups. \<forall>m \<in> set entries. points_key m \<noteq> Null"
    by (simp add: json_matchups_def json_entry_def)
  have total: "sum_list (map (\<lambda>(wk, entries). length entries) json_matchups) = 3"
    by (simp add: json_matchups_def)
  note inst = absent_points_become_zero [OF scans_every_row_stable,
      where dumps = keys_only and nulls_first = False and users = json_users
        and rosters = json_rosters and matchups = json_matchups
        and m = "json_entry 2 No_Key" and wk = 1]
  have "case Inr (projr (build_database_json keys_only stable_engine False json_users json_rosters
                    json_matchups)) :: exception + nullable_row list of
          Inl e \<Rightarrow> True
        | Inr tbl \<Rightarrow> length tbl = 3 \<and> (\<forall>row \<in> set tbl. points_cell row \<noteq> None)"
    using inst [THEN conjunct2, THEN conjunct2] no_null total unfolding built [symmetric]
    by (auto split: sum.splits)
  moreover have "map_sum (\<lambda>e. e) points_cell
      (normalize_json keys_only json_users json_rosters 1 (json_entry 2 No_Key)) = Inr (Some 0)"
  proof -
    have "points_key (json_entry 2 No_Key) = No_Key" by (simp add: json_entry_def)
    moreover have "normalize_json keys_only json_users json_rosters 1 (json_entry 2 No_Key) =
        Inr (projr (normalize_json keys_only json_users json_rosters 1 (json_entry 2 No_Key)))"
      by code_simp
    ultimately show ?thesis
      using inst [THEN conjunct1] by (metis map_sum.simps(2) field.simps(8))
  qed
  ultimately show ?thesis using column scans_every_row_stable by auto
qed

text \<open>
  Counterexample to C10 as stated: an entry with \<^verbatim>\<open>null\<close> under \<^verbatim>\<open>points\<close> gets the
  points \<^verbatim>\<open>None\<close>, and the points column of the table holds \<^verbatim>\<open>NULL\<close> in its row,
  wherever the engine puts the row; the entry without the key gets 0.
\<close>

theorem null_points_stay_null:
  "map_sum (\<lambda>e. e) points_cell
     (normalize_json keys_only json_users json_rosters 1 (json_entry 1 Null)) = Inr None \<and>
   map_sum (\<lambda>e. e) (map (\<lambda>row. (roster_id_cell row, points_cell row)))
     (build_database_json keys_only stable_engine False json_users json_rosters
        [(1, [json_entry 1 Null, json_entry 2 No_Key])]) = Inr [(2, Some 0), (1, None)] \<and>
   map_sum (\<lambda>e. e) (map (\<lambda>row. (roster_id_cell row, points_cell row)))
     (build_database_json keys_only stable_engine True json_users json_rosters
        [(1, [json_entry 1 Null, json_entry 2 No_Key])]) = Inr [(1, None), (2, Some 0)]"
  by code_simp

section \<open>Properties of the average queries\<close>

text \<open>
  The rows of the average-points-in-win and average-points-in-loss queries: one row for
  every team that has a winning (losing) row, and its count, average, minimum and
  maximum range over exactly that team's own winning (losing) rows.
\<close>

lemma set_aggregates_by_team:
  assumes "scans_every_row eng"
  shows "set (order_by eng key
           (map (\<lambda>(t, g). (t, length g, avg eng (map points g),
                            Min (set (map points g)), Max (set (map points g))))
              (group_by team_name (filter sel tbl)))) =
         (\<lambda>t. (t, length (filter (\<lambda>r. sel r \<and> team_name r = t) tbl),
                avg eng (map points (filter (\<lambda>r. sel r \<and> team_name r = t) tbl)),
                Min (set (map points (filter (\<lambda>r. sel r \<and> team_name r = t) tbl))),
                Max (set (map points (filter (\<lambda>r. sel r \<and> team_name r = t) tbl)))))
           ` team_name ` set (filter sel tbl)"
proof -
  have own: "filter (\<lambda>r. team_name r = t) (filter sel tbl) =
             filter (\<lambda>r. sel r \<and> team_name r = t) tbl" for t
    by (simp add: conj_commute)
  show ?thesis
    unfolding set_order_by [OF assms]
    by (simp add: group_by_def own image_image)
qed

lemma stat_6_query_rows:
  assumes "scans_every_row eng"
  shows "set (stat_6_query eng tbl) =
         (\<lambda>t. (t, length (filter (\<lambda>r. won r = 1 \<and> team_name r = t) tbl),
                avg eng (map points (filter (\<lambda>r. won r = 1 \<and> team_name r = t) tbl)),
                Min (set (map points (filter (\<lambda>r. won r = 1 \<and> team_name r = t) tbl))),
                Max (set (map points (filter (\<lambda>r. won r = 1 \<and> team_name r = t) tbl)))))
           ` team_name ` set (filter (\<lambda>r. won r = 1) tbl)"
  unfolding stat_6_query_def by (rule set_aggregates_by_team [OF assms])

lemma stat_7_query_rows:
  assumes "scans_every_row eng"
  shows "set (stat_7_query eng tbl) =
         (\<lambda>t. (t, length (filter (\<lambda>r. won r = 0 \<and> team_name r = t) tbl),
                avg eng (map points (filter (\<lambda>r. won r = 0 \<and> team_name r = t) tbl)),
                Min (set (map points (filter (\<lambda>r. won r = 0 \<and> team_name r = t) tbl))),
                Max (set (map points (filter (\<lambda>r. won r = 0 \<and> team_name r = t) tbl)))))
           ` team_name ` set (filter (\<lambda>r. won r = 0) tbl)"
  unfolding stat_7_query_def by (rule set_aggregates_by_team [OF assms])











section \<open>Properties of the ad-hoc query gate\<close>

lemma interactive_query_error:
  "execute q db = (db', Inl (Exception e)) \<Longrightarrow>
   interactive_query execute q db = (db', [Text (''Error executing query: '' @ e)], Inr None)"
  by (simp add: interactive_query_def)

lemma interactive_query_frame:
  "execute q db = (db', Inr df) \<Longrightarrow>
   interactive_query execute q db = (db', [Frame df], Inr (Some df))"
  by (simp add: interactive_query_def)

lemma interactive_query_db: "fst (interactive_query execute q db) = fst (execute q db)"
  by (simp add: interactive_query_def split: prod.splits sum.splits raised.splits)

lemma interactive_query_never_exception:
  "snd (snd (interactive_query execute q db)) \<noteq> Inl (Exception e)"
  by (simp add: interactive_query_def split: prod.splits sum.splits raised.splits)

lemma main_loop_query_error:
  assumes "is_query_line s" and "execute (py_strip s) db = (db', Inl (Exception e))"
  shows "main_loop execute (Line s # evs) db out =
         main_loop execute evs db'
           (out @ [Text (CHR 0x0A # ''Enter SQL query: ''), Text (''Error executing query: '' @ e)])"
  using assms by (simp add: is_query_line_def Let_def interactive_query_error)

lemma main_loop_keeps_running:
  assumes "\<forall>q db. snd (execute q db) \<noteq> Inl Keyboard_Interrupt"
    and "\<forall>ev \<in> set evs. \<not> ends_loop ev"
  shows "fst (main_loop execute evs db out) = Awaiting_Input"
  using assms(2)
proof (induction evs arbitrary: db out)
  case Nil
  then show ?case by simp
next
  case (Cons ev evs)
  have IH: "\<And>db out. fst (main_loop execute evs db out) = Awaiting_Input"
    using Cons by simp
  show ?case
  proof (cases ev)
    case (Line s)
    then have nq: "py_lower (py_strip s) \<noteq> ''quit''"
      using Cons.prems by (simp add: ends_loop_def)
    obtain db' res where ex: "execute (py_strip s) db = (db', res)"
      by (cases "execute (py_strip s) db")
    have ni: "res \<noteq> Inl Keyboard_Interrupt"
      using assms(1) [rule_format, of "py_strip s" db] ex by simp
    show ?thesis
    proof (cases res)
      case (Inr df)
      then show ?thesis using Line nq ex IH
        by (simp add: Let_def interactive_query_frame)
    next
      case (Inl r)
      then obtain e where "r = Exception e" using ni by (cases r) auto
      then show ?thesis using Line nq ex IH Inl
        by (simp add: Let_def interactive_query_error)
    qed
  next
    case Interrupt
    then show ?thesis using Cons.prems by (simp add: ends_loop_def)
  next
    case (Input_Error e)
    then show ?thesis using IH by simp
  qed
qed

text \<open>
  Claim C7.  When the engine returns a data frame for the text, \<^verbatim>\<open>interactive_query\<close>
  prints and returns it.  When the engine fails with an exception of class
  \<^verbatim>\<open>Exception\<close>, \<^verbatim>\<open>interactive_query\<close> raises nothing: it prints the error
  message and returns \<^verbatim>\<open>None\<close>, and the loop of \<^verbatim>\<open>main\<close> goes on with the next
  input.  No exception of class \<^verbatim>\<open>Exception\<close> ever leaves
  \<^verbatim>\<open>interactive_query\<close>.  So the loop ends only by the exit command or an
  interrupt: after any other inputs, malformed queries among them, it is still waiting
  for input.
\<close>

theorem interactive_query_catches_engine_errors:
  "(\<forall>db' e. execute q db = (db', Inl (Exception e)) \<longrightarrow>
      interactive_query execute q db = (db', [Text (''Error executing query: '' @ e)], Inr None) \<and>
      (\<forall>s evs out. is_query_line s \<and> py_strip s = q \<longrightarrow>
         main_loop execute (Line s # evs) db out =
         main_loop execute evs db'
           (out @ [Text (CHR 0x0A # ''Enter SQL query: ''), Text (''Error executing query: '' @ e)]))) \<and>
   (\<forall>db' df. execute q db = (db', Inr df) \<longrightarrow>
      interactive_query execute q db = (db', [Frame df], Inr (Some df))) \<and>
   (\<forall>e. snd (snd (interactive_query execute q db)) \<noteq> Inl (Exception e)) \<and>
   (\<forall>evs out.
      (\<forall>q db. snd (execute q db) \<noteq> Inl Keyboard_Interrupt) \<and>
      (\<forall>ev \<in> set evs. \<not> ends_loop ev) \<longrightarrow>
      fst (main_loop execute evs db out) = Awaiting_Input)"
  using interactive_query_error [of execute q db] interactive_query_frame [of execute q db]
    interactive_query_never_exception [of execute q db]
    main_loop_query_error [of _ execute db] main_loop_keeps_running [of execute _ db]
  by blast

text \<open>Witness for C7: the misspelt query of the specification, then a well-formed one.\<close>

theorem interactive_query_catches_engine_errors_witness:
  "interactive_query duckdb_fragment ''SELEKT * FROM matchups'' example_table =
     (example_table, [Text ''Error executing query: Parser Error: syntax error at or near SELEKT''],
      Inr None) \<and>
   interactive_query duckdb_fragment ''SELECT * FROM matchups'' example_table =
     (example_table, [Frame (All_Columns example_table)], Inr (Some (All_Columns example_table))) \<and>
   main_loop duckdb_fragment [Line ''SELEKT * FROM matchups''] example_table [] =
     (Awaiting_Input, example_table,
      [Text (CHR 0x0A # ''Enter SQL query: ''),
       Text ''Error executing query: Parser Error: syntax error at or near SELEKT'',
       Text (CHR 0x0A # ''Enter SQL query: '')]) \<and>
   fst (main_loop duckdb_fragment
          [Line ''SELEKT * FROM matchups'', Line '' SELECT * FROM matchups ''] example_table [])
     = Awaiting_Input"
proof -
  have fails: "duckdb_fragment ''SELEKT * FROM matchups'' example_table =
      (example_table, Inl (Exception ''Parser Error: syntax error at or near SELEKT''))"
    by (simp add: duckdb_fragment_def)
  have engine: "\<forall>q db. snd (duckdb_fragment q db) \<noteq> Inl Keyboard_Interrupt"
    by (simp add: duckdb_fragment_def)
  have l1: "\<not> ends_loop (Line ''SELEKT * FROM matchups'')" by code_simp
  have l2: "\<not> ends_loop (Line '' SELECT * FROM matchups '')" by code_simp
  have lines: "\<forall>ev \<in> set [Line ''SELEKT * FROM matchups'', Line '' SELECT * FROM matchups ''].
      \<not> ends_loop ev"
    using l1 l2 by simp
  note gate = interactive_query_catches_engine_errors
      [of duckdb_fragment "''SELEKT * FROM matchups''" example_table]
  have caught: "interactive_query duckdb_fragment ''SELEKT * FROM matchups'' example_table =
     (example_table, [Text (''Error executing query: '' @
        ''Parser Error: syntax error at or near SELEKT'')], Inr None)"
    using gate [THEN conjunct1, rule_format, OF fails] by (rule conjunct1)
  have running: "fst (main_loop duckdb_fragment
          [Line ''SELEKT * FROM matchups'', Line '' SELECT * FROM matchups ''] example_table [])
     = Awaiting_Input"
    using gate [THEN conjunct2, THEN conjunct2, THEN conjunct2, rule_format, OF conjI,
        OF engine lines] .
  have works: "duckdb_fragment ''SELECT * FROM matchups'' example_table =
      (example_table, Inr (All_Columns example_table))"
    by (simp add: duckdb_fragment_def)
  have shown: "interactive_query duckdb_fragment ''SELECT * FROM matchups'' example_table =
     (example_table, [Frame (All_Columns example_table)], Inr (Some (All_Columns example_table)))"
    using interactive_query_catches_engine_errors
      [of duckdb_fragment "''SELECT * FROM matchups''" example_table,
       THEN conjunct2, THEN conjunct1, rule_format, OF works] .
  have typed: "is_query_line ''SELEKT * FROM matchups'' \<and>
      py_strip ''SELEKT * FROM matchups'' = ''SELEKT * FROM matchups''"
    by code_simp
  have "main_loop duckdb_fragment (Line ''SELEKT * FROM matchups'' # []) example_table [] =
      main_loop duckdb_fragment [] example_table
        ([] @ [Text (CHR 0x0A # ''Enter SQL query: ''),
               Text (''Error executing query: '' @
                 ''Parser Error: syntax error at or near SELEKT'')])"
    using gate [THEN conjunct1, rule_format, OF fails, THEN conjunct2, rule_format, OF typed] .
  then have next_prompt:
    "main_loop duckdb_fragment [Line ''SELEKT * FROM matchups''] example_table [] =
     (Awaiting_Input, example_table,
      [Text (CHR 0x0A # ''Enter SQL query: ''),
       Text ''Error executing query: Parser Error: syntax error at or near SELEKT'',
       Text (CHR 0x0A # ''Enter SQL query: '')])"
    by simp
  show ?thesis using caught shown next_prompt running by simp
qed

lemma stat_dbs:
  "fst (stat_1_highest_scores_by_week eng db) = db"
  "fst (stat_2_top_10_scores_overall eng db) = db"
  "fst (stat_3_lowest_scores_by_week eng db) = db"
  "fst (stat_3b_top_10_lowest_scores_overall eng db) = db"
  "fst (stat_4_most_wins_vs_lowest_score eng db) = db"
  "fst (stat_5_most_losses_vs_highest_score eng db) = db"
  "fst (stat_6_avg_points_in_win eng db) = db"
  "fst (stat_7_avg_points_in_loss eng db) = db"
  by (simp_all add: stat_1_highest_scores_by_week_def stat_2_top_10_scores_overall_def
      stat_3_lowest_scores_by_week_def stat_3b_top_10_lowest_scores_overall_def
      stat_4_most_wins_vs_lowest_score_def stat_5_most_losses_vs_highest_score_def
      stat_6_avg_points_in_win_def stat_7_avg_points_in_loss_def execute_select_def)

lemma main_loop_read_only:
  assumes "\<forall>s d. Line s \<in> set evs \<longrightarrow> fst (execute (py_strip s) d) = d"
  shows "fst (snd (main_loop execute evs db out)) = db"
  using assms
proof (induction evs arbitrary: db out)
  case Nil
  then show ?case by simp
next
  case (Cons ev evs)
  have IH: "\<And>db out. fst (snd (main_loop execute evs db out)) = db"
    using Cons by simp
  show ?case
  proof (cases ev)
    case (Line s)
    have same: "fst (interactive_query execute (py_strip s) db) = db"
      using Cons.prems Line by (simp add: interactive_query_db)
    obtain db' shown res where iq: "interactive_query execute (py_strip s) db = (db', shown, res)"
      by (cases "interactive_query execute (py_strip s) db")
    then have "db' = db" using same by simp
    then show ?thesis
      using Line iq IH by (simp add: Let_def split: sum.splits raised.splits)
  next
    case Interrupt
    then show ?thesis by simp
  next
    case (Input_Error e)
    then show ?thesis using IH by simp
  qed
qed

lemma run_all_stats_db: "fst (run_all_stats eng db) = db"
  using stat_dbs [of eng db]
  by (simp add: run_all_stats_def Let_def split: prod.splits) (metis fst_conv)

text \<open>
  Claim C9, as the code has it.  \<^verbatim>\<open>run_all_stats\<close> and each of the eight methods of
  the query library leave the table as it is.  The ad-hoc gate sets no limit of its
  own: \<^verbatim>\<open>interactive_query\<close> leaves the table exactly as the engine leaves it after
  running the operator's text, whatever statement that text holds.  So the interactive
  loop leaves the table unchanged when every text it passes on is one whose execution
  changes nothing.
\<close>

theorem fixed_queries_leave_table_unchanged:
  "fst (run_all_stats eng db) = db \<and>
   fst (stat_1_highest_scores_by_week eng db) = db \<and>
   fst (stat_2_top_10_scores_overall eng db) = db \<and>
   fst (stat_3_lowest_scores_by_week eng db) = db \<and>
   fst (stat_3b_top_10_lowest_scores_overall eng db) = db \<and>
   fst (stat_4_most_wins_vs_lowest_score eng db) = db \<and>
   fst (stat_5_most_losses_vs_highest_score eng db) = db \<and>
   fst (stat_6_avg_points_in_win eng db) = db \<and>
   fst (stat_7_avg_points_in_loss eng db) = db \<and>
   fst (interactive_query execute q db) = fst (execute q db) \<and>
   (\<forall>evs out. (\<forall>s d. Line s \<in> set evs \<longrightarrow> fst (execute (py_strip s) d) = d) \<longrightarrow>
      fst (snd (main_loop execute evs db out)) = db)"
  using main_loop_read_only [of _ execute db]
  by (simp add: stat_dbs run_all_stats_db interactive_query_db)

text \<open>Witness for C9: the fixed queries and an ad-hoc \<^verbatim>\<open>SELECT\<close> on the example table.\<close>

theorem fixed_queries_leave_table_unchanged_witness:
  "fst (run_all_stats stable_engine example_table) = example_table \<and>
   fst (interactive_query duckdb_fragment ''SELECT * FROM matchups'' example_table) = example_table \<and>
   fst (snd (main_loop duckdb_fragment
               [Line ''SELECT * FROM matchups'', Line ''SELEKT * FROM matchups'', Line ''quit'']
               example_table [])) = example_table"
proof -
  have reads: "\<forall>s d. Line s \<in> set [Line ''SELECT * FROM matchups'', Line ''SELEKT * FROM matchups'',
                                   Line ''quit''] \<longrightarrow>
      fst (duckdb_fragment (py_strip s) d) = d"
  proof (intro allI impI)
    fix s d
    assume "Line s \<in> set [Line ''SELECT * FROM matchups'', Line ''SELEKT * FROM matchups'',
                           Line ''quit'']"
    then have "s = ''SELECT * FROM matchups'' \<or> s = ''SELEKT * FROM matchups'' \<or> s = ''quit''"
      by simp
    moreover have "py_strip ''SELECT * FROM matchups'' = ''SELECT * FROM matchups''"
      "py_strip ''SELEKT * FROM matchups'' = ''SELEKT * FROM matchups''"
      "py_strip ''quit'' = ''quit''"
      by code_simp+
    ultimately show "fst (duckdb_fragment (py_strip s) d) = d"
      by (auto simp: duckdb_fragment_def)
  qed
  note frame = fixed_queries_leave_table_unchanged
      [of stable_engine example_table duckdb_fragment "''SELECT * FROM matchups''"]
  have loop: "fst (snd (main_loop duckdb_fragment
               [Line ''SELECT * FROM matchups'', Line ''SELEKT * FROM matchups'', Line ''quit'']
               example_table [])) = example_table"
    using frame [THEN conjunct2, THEN conjunct2, THEN conjunct2, THEN conjunct2, THEN conjunct2,
        THEN conjunct2, THEN conjunct2, THEN conjunct2, THEN conjunct2, THEN conjunct2,
        rule_format, OF reads [rule_format]] .
  have gate: "fst (interactive_query duckdb_fragment ''SELECT * FROM matchups'' example_table)
      = example_table"
    using frame by (simp add: duckdb_fragment_def)
  show ?thesis using frame gate loop by simp
qed

text \<open>
  Counterexample to C9 as stated: the gate accepts \<^verbatim>\<open>DELETE FROM matchups\<close>, and the
  table of three rows is empty afterwards.
\<close>

theorem adhoc_delete_changes_table:
  "fst (interactive_query duckdb_fragment ''DELETE FROM matchups'' example_table) \<noteq> example_table"
proof -
  have "example_table \<noteq> []" by code_simp
  then show ?thesis by (simp add: interactive_query_def duckdb_fragment_def)
qed

end
